theory Spec2Isabelle
  imports Complex_Main "HOL-Library.State_Monad"
begin

section \<open>numpy float arithmetic\<close>

text \<open>
  The profiles of \<^verbatim>\<open>one_d_profiles.py\<close> compute with numpy float64 values. A value is
  an exact real number or one of the three non-finite values numpy produces instead of
  raising. The operations of this section are the exact ones: a finite result is the real
  number, unrounded, so a statement proved with them is a statement about the formulas
  the code evaluates. The singular cases (division by zero, logarithm of zero,
  indeterminate forms) are those of numpy. Zero is unsigned and behaves like
  \<^verbatim>\<open>+0.0\<close>. The operations of the next section round every finite result to a double.
\<close>

datatype npfloat = Fin real | PInf | NInf | NaN

text \<open>The infinity with the sign of a real number; a zero sign gives NaN (\<^verbatim>\<open>0 * inf\<close>, \<^verbatim>\<open>0 / 0\<close>).\<close>

definition inf_of :: "real \<Rightarrow> npfloat" where
  "inf_of a = (if 0 < a then PInf else if a < 0 then NInf else NaN)"

fun np_neg :: "npfloat \<Rightarrow> npfloat" where
  "np_neg (Fin a) = Fin (- a)"
| "np_neg PInf = NInf"
| "np_neg NInf = PInf"
| "np_neg NaN = NaN"

fun np_add :: "npfloat \<Rightarrow> npfloat \<Rightarrow> npfloat" where
  "np_add (Fin a) (Fin b) = Fin (a + b)"
| "np_add NaN _ = NaN"
| "np_add _ NaN = NaN"
| "np_add PInf NInf = NaN"
| "np_add NInf PInf = NaN"
| "np_add PInf _ = PInf"
| "np_add _ PInf = PInf"
| "np_add NInf _ = NInf"
| "np_add _ NInf = NInf"

definition np_sub :: "npfloat \<Rightarrow> npfloat \<Rightarrow> npfloat" where
  "np_sub a b = np_add a (np_neg b)"

fun np_mul :: "npfloat \<Rightarrow> npfloat \<Rightarrow> npfloat" where
  "np_mul (Fin a) (Fin b) = Fin (a * b)"
| "np_mul NaN _ = NaN"
| "np_mul _ NaN = NaN"
| "np_mul (Fin a) PInf = inf_of a"
| "np_mul (Fin a) NInf = inf_of (- a)"
| "np_mul PInf (Fin b) = inf_of b"
| "np_mul NInf (Fin b) = inf_of (- b)"
| "np_mul PInf PInf = PInf"
| "np_mul PInf NInf = NInf"
| "np_mul NInf PInf = NInf"
| "np_mul NInf NInf = PInf"

text \<open>
  \<^verbatim>\<open>np.divide\<close> and \<^verbatim>\<open>/\<close> on numpy values: a division by zero warns and gives an
  infinity of the numerator's sign, or NaN for \<^verbatim>\<open>0 / 0\<close>; it does not raise.
\<close>

fun np_divide :: "npfloat \<Rightarrow> npfloat \<Rightarrow> npfloat" where
  "np_divide (Fin a) (Fin b) = (if b = 0 then inf_of a else Fin (a / b))"
| "np_divide NaN _ = NaN"
| "np_divide _ NaN = NaN"
| "np_divide (Fin a) PInf = Fin 0"
| "np_divide (Fin a) NInf = Fin 0"
| "np_divide PInf (Fin b) = (if 0 \<le> b then PInf else NInf)"
| "np_divide NInf (Fin b) = (if 0 \<le> b then NInf else PInf)"
| "np_divide PInf PInf = NaN"
| "np_divide PInf NInf = NaN"
| "np_divide NInf PInf = NaN"
| "np_divide NInf NInf = NaN"

text \<open>\<^verbatim>\<open>x ** n\<close> for a literal non-negative integer exponent (\<^verbatim>\<open>** 2\<close>, \<^verbatim>\<open>** 3\<close>).\<close>

fun np_pow_int :: "npfloat \<Rightarrow> nat \<Rightarrow> npfloat" where
  "np_pow_int (Fin a) n = Fin (a ^ n)"
| "np_pow_int PInf n = (if n = 0 then Fin 1 else PInf)"
| "np_pow_int NInf n = (if n = 0 then Fin 1 else if even n then PInf else NInf)"
| "np_pow_int NaN n = (if n = 0 then Fin 1 else NaN)"

text \<open>
  \<^verbatim>\<open>x ** e\<close> for a finite float exponent. Anything to the power zero is one (also NaN);
  a negative base has a real power only for an integer exponent.
\<close>

definition is_int :: "real \<Rightarrow> bool" where
  "is_int e = (of_int \<lfloor>e\<rfloor> = e)"

definition is_odd_int :: "real \<Rightarrow> bool" where
  "is_odd_int e = (is_int e \<and> odd \<lfloor>e\<rfloor>)"

fun np_power :: "npfloat \<Rightarrow> real \<Rightarrow> npfloat" where
  "np_power (Fin b) e =
     (if e = 0 then Fin 1
      else if 0 < b then Fin (b powr e)
      else if b = 0 then (if 0 < e then Fin 0 else PInf)
      else if is_int e then Fin (if is_odd_int e then - ((- b) powr e) else (- b) powr e)
      else NaN)"
| "np_power PInf e = (if e = 0 then Fin 1 else if 0 < e then PInf else Fin 0)"
| "np_power NInf e =
     (if e = 0 then Fin 1
      else if 0 < e then (if is_odd_int e then NInf else PInf)
      else Fin 0)"
| "np_power NaN e = (if e = 0 then Fin 1 else NaN)"

fun np_log :: "npfloat \<Rightarrow> npfloat" where
  "np_log (Fin a) = (if 0 < a then Fin (ln a) else if a = 0 then NInf else NaN)"
| "np_log PInf = PInf"
| "np_log NInf = NaN"
| "np_log NaN = NaN"

text \<open>\<^verbatim>\<open>np.where(c, 0, v)\<close>: both branches are already computed, the condition selects.\<close>

definition np_where :: "bool \<Rightarrow> npfloat \<Rightarrow> npfloat \<Rightarrow> npfloat" where
  "np_where c a b = (if c then a else b)"

text \<open>
  The comparisons \<^verbatim>\<open>==\<close>, \<^verbatim>\<open><\<close> and \<^verbatim>\<open><=\<close> of floats: NaN compares unequal to
  everything and is in no order with anything.
\<close>

definition np_equal :: "npfloat \<Rightarrow> npfloat \<Rightarrow> bool" where
  "np_equal a b = (a = b \<and> a \<noteq> NaN)"

fun np_less :: "npfloat \<Rightarrow> npfloat \<Rightarrow> bool" where
  "np_less (Fin a) (Fin b) = (a < b)"
| "np_less NaN _ = False"
| "np_less _ NaN = False"
| "np_less NInf NInf = False"
| "np_less NInf _ = True"
| "np_less PInf _ = False"
| "np_less _ PInf = True"
| "np_less _ NInf = False"

fun np_le :: "npfloat \<Rightarrow> npfloat \<Rightarrow> bool" where
  "np_le (Fin a) (Fin b) = (a \<le> b)"
| "np_le NaN _ = False"
| "np_le _ NaN = False"
| "np_le NInf _ = True"
| "np_le _ PInf = True"
| "np_le PInf _ = False"
| "np_le _ NInf = False"

text \<open>A float that is zero, positive or plus infinity.\<close>

fun np_nonneg :: "npfloat \<Rightarrow> bool" where
  "np_nonneg (Fin a) = (0 \<le> a)"
| "np_nonneg PInf = True"
| "np_nonneg _ = False"

text \<open>A finite, strictly positive float.\<close>

fun finite_pos :: "npfloat \<Rightarrow> bool" where
  "finite_pos (Fin a) = (0 < a)"
| "finite_pos _ = False"


section \<open>Double precision\<close>

text \<open>
  IEEE 754 binary64 with the default rounding, to nearest with ties to even. A real
  number \<open>x\<close> lies in the binade \<open>2 ^ e \<le> \<bar>x\<bar> < 2 ^ (e + 1)\<close>, with \<open>e\<close> not below -1022, where
  the subnormal numbers begin; the doubles of that binade are the multiples of
  \<open>2 ^ (e - 52)\<close>; \<open>x\<close> is rounded to the nearest of them, and a result of magnitude
  \<open>2 ^ 1024\<close> or more is an infinity.
\<close>

definition rne :: "real \<Rightarrow> int" where
  "rne q = (let n = \<lfloor>q\<rfloor>; d = q - of_int n
            in if d < 1 / 2 then n else if 1 / 2 < d then n + 1
               else if even n then n else n + 1)"

definition binade :: "real \<Rightarrow> int" where
  "binade x = max \<lfloor>log 2 \<bar>x\<bar>\<rfloor> (- 1022)"

definition rounded :: "real \<Rightarrow> real" where
  "rounded x = of_int (rne (x / 2 powi (binade x - 52))) * 2 powi (binade x - 52)"

definition round_double :: "real \<Rightarrow> npfloat" where
  "round_double x =
     (if x = 0 then Fin 0
      else if 2 ^ 1024 \<le> \<bar>rounded x\<bar> then inf_of x
      else Fin (rounded x))"

text \<open>
  An operation on doubles is the exact operation followed by the rounding of a finite
  result. \<^verbatim>\<open>x ** 2\<close> is numpy's square, one multiplication; \<^verbatim>\<open>x ** e\<close> with a float
  exponent is the C function \<^verbatim>\<open>pow\<close>, taken as correctly rounded, with its values at
  an infinite or NaN exponent.
\<close>

fun rd :: "npfloat \<Rightarrow> npfloat" where
  "rd (Fin v) = round_double v"
| "rd PInf = PInf"
| "rd NInf = NInf"
| "rd NaN = NaN"

definition dbl_add :: "npfloat \<Rightarrow> npfloat \<Rightarrow> npfloat" where
  "dbl_add a b = rd (np_add a b)"


definition dbl_mul :: "npfloat \<Rightarrow> npfloat \<Rightarrow> npfloat" where
  "dbl_mul a b = rd (np_mul a b)"

definition dbl_divide :: "npfloat \<Rightarrow> npfloat \<Rightarrow> npfloat" where
  "dbl_divide a b = rd (np_divide a b)"

definition dbl_square :: "npfloat \<Rightarrow> npfloat" where
  "dbl_square a = rd (np_pow_int a 2)"


text \<open>
  A Python float raised to an integer power, \<^verbatim>\<open>v ** n\<close>, raises OverflowError where
  the power rounds to an infinity, that is from \<open>2 ^ 1024 - 2 ^ 970\<close> on, half a unit in
  the last place above the largest double. numpy returns the infinity instead.
\<close>

definition py_float_pow_overflows :: "real \<Rightarrow> nat \<Rightarrow> bool" where
  "py_float_pow_overflows v n = (2 ^ 1024 - 2 ^ 970 \<le> \<bar>v ^ n\<bar>)"

section \<open>External collaborators\<close>

text \<open>
  The cosmology (\<^verbatim>\<open>astropy.cosmology.Planck15\<close>, the module-level \<^verbatim>\<open>cosmo\<close>) and the
  concentration-mass relation (\<^verbatim>\<open>colossus\<close>) are libraries outside the repository. They
  are parameters of the model: nothing is assumed about the values they return.
\<close>

record cosmology =
  speed_of_light :: real
  gravitational_constant :: real
  angular_diameter_distance :: "real \<Rightarrow> npfloat"
  angular_diameter_distance_z1z2 :: "real \<Rightarrow> real \<Rightarrow> npfloat"
  critical_density :: "real \<Rightarrow> npfloat"
  col_h :: real
  col_concentration :: "real \<Rightarrow> real \<Rightarrow> npfloat"

section \<open>The base class LensProfile\<close>

text \<open>
  \<^verbatim>\<open>one_d_code/lens_profile.py\<close> is not among the sources. Its constructor, its derived
  attribute and its helper \<^verbatim>\<open>f_func\<close> are taken from the specification (section 4.1).
\<close>

datatype error = InvalidRedshift | OverflowError

record LensProfile =
  z_l :: real
  z_s :: real
  critical_surface_density_of_lens :: npfloat

text \<open>
  Modelled from the spec: the attribute \<^verbatim>\<open>critical_surface_density_of_lens\<close> of the missing
  class LensProfile, \<^verbatim>\<open>c^2 / (4 pi G) * D_s / (D_l * D_ls)\<close> with the angular-diameter
  distances of the cosmology provider.
\<close>

definition critical_surface_density :: "cosmology \<Rightarrow> real \<Rightarrow> real \<Rightarrow> npfloat" where
  "critical_surface_density cosmo zl zs =
     np_mul
       (np_divide (Fin ((speed_of_light cosmo)\<^sup>2)) (Fin (4 * pi * gravitational_constant cosmo)))
       (np_divide (angular_diameter_distance cosmo zs)
          (np_mul (angular_diameter_distance cosmo zl)
             (angular_diameter_distance_z1z2 cosmo zl zs)))"

text \<open>
  Modelled from the spec: the constructor of the missing class LensProfile. It is
  constructed with \<^verbatim>\<open>(z_l, z_s)\<close>, fails with an InvalidRedshift condition if
  \<^verbatim>\<open>z_s <= z_l\<close>, and computes the critical surface density once.
\<close>

definition LensProfile_init :: "cosmology \<Rightarrow> real \<Rightarrow> real \<Rightarrow> error + LensProfile" where
  "LensProfile_init cosmo zl zs =
     (if zs \<le> zl then Inl InvalidRedshift
      else Inr \<lparr>z_l = zl, z_s = zs,
                critical_surface_density_of_lens = critical_surface_density cosmo zl zs\<rparr>)"

text \<open>
  Modelled from the spec: the helper \<^verbatim>\<open>f_func\<close> of the missing class LensProfile, applied
  to one element: \<^verbatim>\<open>arctanh(sqrt(1-x^2)) / sqrt(1-x^2)\<close> on \<^verbatim>\<open>(0,1)\<close>, exactly 1 at
  \<^verbatim>\<open>x = 1\<close>, \<^verbatim>\<open>arctan(sqrt(x^2-1)) / sqrt(x^2-1)\<close> for \<^verbatim>\<open>x > 1\<close> (which is
  \<^verbatim>\<open>arctan(inf) / inf = 0\<close> at infinity), and NaN outside the domain, zero included.
\<close>

fun f_func :: "npfloat \<Rightarrow> npfloat" where
  "f_func (Fin x) =
     (if 0 < x \<and> x < 1 then Fin (artanh (sqrt (1 - x\<^sup>2)) / sqrt (1 - x\<^sup>2))
      else if x = 1 then Fin 1
      else if 1 < x then Fin (arctan (sqrt (x\<^sup>2 - 1)) / sqrt (x\<^sup>2 - 1))
      else NaN)"
| "f_func PInf = Fin 0"
| "f_func NInf = NaN"
| "f_func NaN = NaN"

text \<open>
  In the evaluators below the inherited method \<^verbatim>\<open>self.f_func\<close> is the parameter \<open>f\<close>,
  applied to each element of the array \<open>x\<close>; \<open>f_func\<close> above is the instance the
  specification describes.
\<close>

section \<open>SphericalPowerLaw\<close>

record SphericalPowerLaw = LensProfile +
  einstein_radius :: real
  slope :: real
  m_ein :: npfloat
  rho_s :: npfloat

text \<open>
  The parameters of a constructor are Python floats. The base constructor runs first;
  then \<^verbatim>\<open>einstein_radius**2\<close>, a power of a Python float, raises OverflowError where it
  overflows.
\<close>

definition SphericalPowerLaw_init ::
  "cosmology \<Rightarrow> real \<Rightarrow> real \<Rightarrow> real \<Rightarrow> real \<Rightarrow> error + SphericalPowerLaw" where
  "SphericalPowerLaw_init cosmo einstein_radius' slope' zs zl =
     (case LensProfile_init cosmo zl zs of
        Inl e \<Rightarrow> Inl e
      | Inr base \<Rightarrow>
          if py_float_pow_overflows einstein_radius' 2 then Inl OverflowError
          else
            let sigma_cr = critical_surface_density_of_lens base;
                m_ein' = np_mul (Fin (pi * einstein_radius'\<^sup>2)) sigma_cr
            in Inr \<lparr>z_l = z_l base, z_s = z_s base,
                    critical_surface_density_of_lens = sigma_cr,
                    einstein_radius = einstein_radius',
                    slope = slope',
                    m_ein = m_ein',
                    rho_s = np_divide m_ein' (Fin (pi * einstein_radius'\<^sup>2))\<rparr>)"

definition SphericalPowerLaw_density :: "SphericalPowerLaw \<Rightarrow> npfloat \<Rightarrow> npfloat" where
  "SphericalPowerLaw_density self R =
     np_mul (critical_surface_density_of_lens self)
       (np_power (np_divide (Fin 1) R) (slope self))"

definition SphericalPowerLaw_surface_mass_density :: "SphericalPowerLaw \<Rightarrow> npfloat \<Rightarrow> npfloat" where
  "SphericalPowerLaw_surface_mass_density self R =
     np_mul
       (np_mul (critical_surface_density_of_lens self)
          (np_divide (Fin (3 - slope self)) (Fin 2)))
       (np_power (np_divide (Fin (einstein_radius self)) R) (slope self - 1))"

definition SphericalPowerLaw_convergence :: "SphericalPowerLaw \<Rightarrow> npfloat \<Rightarrow> npfloat" where
  "SphericalPowerLaw_convergence self R =
     np_mul (np_divide (Fin (3 - slope self)) (Fin 2))
       (np_power (np_divide (Fin (einstein_radius self)) R) (slope self - 1))"

definition SphericalPowerLaw_deflection_angles :: "SphericalPowerLaw \<Rightarrow> npfloat \<Rightarrow> npfloat" where
  "SphericalPowerLaw_deflection_angles self R =
     np_mul (Fin (einstein_radius self))
       (np_power (np_divide (Fin (einstein_radius self)) R) (slope self - 2))"

text \<open>
  The evaluators take a numpy array of radii and work element by element: the functions
  above are the body applied to one element, the functions below map it over the array.
  The arithmetic on an array is numpy's, so a division by zero inside an evaluator gives
  an infinity or NaN and does not raise.
\<close>

definition SphericalPowerLaw_density_from_radii ::
  "SphericalPowerLaw \<Rightarrow> npfloat list \<Rightarrow> npfloat list" where
  "SphericalPowerLaw_density_from_radii self radii = map (SphericalPowerLaw_density self) radii"

definition SphericalPowerLaw_surface_mass_density_from_radii ::
  "SphericalPowerLaw \<Rightarrow> npfloat list \<Rightarrow> npfloat list" where
  "SphericalPowerLaw_surface_mass_density_from_radii self radii =
     map (SphericalPowerLaw_surface_mass_density self) radii"

definition SphericalPowerLaw_convergence_from_radii ::
  "SphericalPowerLaw \<Rightarrow> npfloat list \<Rightarrow> npfloat list" where
  "SphericalPowerLaw_convergence_from_radii self radii =
     map (SphericalPowerLaw_convergence self) radii"

definition SphericalPowerLaw_deflection_angles_from_radii ::
  "SphericalPowerLaw \<Rightarrow> npfloat list \<Rightarrow> npfloat list" where
  "SphericalPowerLaw_deflection_angles_from_radii self radii =
     map (SphericalPowerLaw_deflection_angles self) radii"





section \<open>Hernquist\<close>

record Hernquist = LensProfile +
  mass :: real
  effective_radius :: real
  half_mass_radius :: npfloat
  r_s :: npfloat
  rho_s :: npfloat
  kappa_s :: npfloat

text \<open>
  \<^verbatim>\<open>self.r_s ** 3\<close> is a power of a Python float and raises OverflowError where it
  overflows; the products and quotients around it do not raise.
\<close>

definition Hernquist_init ::
  "cosmology \<Rightarrow> real \<Rightarrow> real \<Rightarrow> real \<Rightarrow> real \<Rightarrow> error + Hernquist" where
  "Hernquist_init cosmo mass' effective_radius' zs zl =
     (case LensProfile_init cosmo zl zs of
        Inl e \<Rightarrow> Inl e
      | Inr base \<Rightarrow>
          if py_float_pow_overflows (effective_radius' / 1.8153) 3 then Inl OverflowError
          else
            let sigma_cr = critical_surface_density_of_lens base;
                r_s' = Fin (effective_radius' / 1.8153);
                rho_s' = np_divide (Fin mass') (np_mul (Fin (2 * pi)) (np_pow_int r_s' 3))
            in Inr \<lparr>z_l = z_l base, z_s = z_s base,
                    critical_surface_density_of_lens = sigma_cr,
                    mass = mass',
                    effective_radius = effective_radius',
                    half_mass_radius = Fin (effective_radius' * 1.33),
                    r_s = r_s',
                    rho_s = rho_s',
                    kappa_s = np_divide (np_mul rho_s' r_s') sigma_cr\<rparr>)"

definition Hernquist_density :: "Hernquist \<Rightarrow> npfloat \<Rightarrow> npfloat" where
  "Hernquist_density self R =
     (let x = np_divide R (Hernquist.r_s self)
      in np_divide (Hernquist.rho_s self) (np_mul x (np_pow_int (np_add (Fin 1) x) 3)))"

definition Hernquist_surface_mass_density ::
  "(npfloat \<Rightarrow> npfloat) \<Rightarrow> Hernquist \<Rightarrow> npfloat \<Rightarrow> npfloat" where
  "Hernquist_surface_mass_density f self R =
     (let x = np_divide R (Hernquist.r_s self);
          fx = f x
      in np_where (fx = Fin 0) (Fin 0)
           (np_mul
              (np_divide (np_mul (Hernquist.rho_s self) (Hernquist.r_s self))
                 (np_pow_int (np_sub (np_pow_int x 2) (Fin 1)) 2))
              (np_add (Fin (- 3))
                 (np_mul (np_sub (Fin 1) fx) (np_add (Fin 2) (np_pow_int x 2))))))"

definition Hernquist_convergence ::
  "(npfloat \<Rightarrow> npfloat) \<Rightarrow> Hernquist \<Rightarrow> npfloat \<Rightarrow> npfloat" where
  "Hernquist_convergence f self R =
     (let x = np_divide R (Hernquist.r_s self);
          fx = f x
      in np_where (fx = Fin 0) (Fin 0)
           (np_mul
              (np_divide (Hernquist.kappa_s self)
                 (np_pow_int (np_sub (np_pow_int x 2) (Fin 1)) 2))
              (np_add (Fin (- 3))
                 (np_mul (np_sub (Fin 1) fx) (np_add (Fin 2) (np_pow_int x 2))))))"

definition Hernquist_deflection_angles ::
  "(npfloat \<Rightarrow> npfloat) \<Rightarrow> Hernquist \<Rightarrow> npfloat \<Rightarrow> npfloat" where
  "Hernquist_deflection_angles f self R =
     (let x = np_divide R (Hernquist.r_s self);
          fx = f x
      in np_where (fx = Fin 0) (Fin 0)
           (np_mul
              (np_mul (np_mul (Fin 2) (Hernquist.kappa_s self)) (Hernquist.r_s self))
              (np_divide (np_mul x fx) (np_sub (np_pow_int x 2) (Fin 1)))))"

definition Hernquist_density_from_radii :: "Hernquist \<Rightarrow> npfloat list \<Rightarrow> npfloat list" where
  "Hernquist_density_from_radii self radii = map (Hernquist_density self) radii"

definition Hernquist_surface_mass_density_from_radii ::
  "(npfloat \<Rightarrow> npfloat) \<Rightarrow> Hernquist \<Rightarrow> npfloat list \<Rightarrow> npfloat list" where
  "Hernquist_surface_mass_density_from_radii f self radii =
     map (Hernquist_surface_mass_density f self) radii"

definition Hernquist_convergence_from_radii ::
  "(npfloat \<Rightarrow> npfloat) \<Rightarrow> Hernquist \<Rightarrow> npfloat list \<Rightarrow> npfloat list" where
  "Hernquist_convergence_from_radii f self radii = map (Hernquist_convergence f self) radii"

definition Hernquist_deflection_angles_from_radii ::
  "(npfloat \<Rightarrow> npfloat) \<Rightarrow> Hernquist \<Rightarrow> npfloat list \<Rightarrow> npfloat list" where
  "Hernquist_deflection_angles_from_radii f self radii =
     map (Hernquist_deflection_angles f self) radii"

section \<open>NFW\_Hilbert\<close>

record NFW_Hilbert = LensProfile +
  m200 :: real
  concentration :: npfloat
  r200 :: npfloat
  r_s :: npfloat
  rho_s :: npfloat
  kappa_s :: npfloat

text \<open>
  Here \<^verbatim>\<open>self.r_s\<close> is a numpy value, the quotient of \<^verbatim>\<open>r200.value\<close> by the
  concentration, so \<^verbatim>\<open>self.r_s ** 3\<close> does not raise.
\<close>

definition NFW_Hilbert_init ::
  "cosmology \<Rightarrow> real \<Rightarrow> real \<Rightarrow> real \<Rightarrow> error + NFW_Hilbert" where
  "NFW_Hilbert_init cosmo m200' zs zl =
     (case LensProfile_init cosmo zl zs of
        Inl e \<Rightarrow> Inl e
      | Inr base \<Rightarrow>
          let sigma_cr = critical_surface_density_of_lens base;
              c = col_concentration cosmo (m200' * col_h cosmo) (z_l base);
              r200' = np_power
                        (np_divide (Fin m200')
                           (np_mul (Fin (1.333 * pi * 200)) (critical_density cosmo (z_l base))))
                        (1 / 3);
              r_s' = np_divide r200' c;
              rho_s' = np_divide (Fin m200')
                         (np_mul (np_mul (Fin (4 * pi)) (np_pow_int r_s' 3))
                            (np_sub (np_log (np_add (Fin 1) c))
                               (np_divide c (np_add (Fin 1) c))))
          in Inr \<lparr>z_l = z_l base, z_s = z_s base,
                  critical_surface_density_of_lens = sigma_cr,
                  m200 = m200',
                  concentration = c,
                  r200 = r200',
                  r_s = r_s',
                  rho_s = rho_s',
                  kappa_s = np_divide (np_mul rho_s' r_s') sigma_cr\<rparr>)"

definition NFW_Hilbert_density :: "NFW_Hilbert \<Rightarrow> npfloat \<Rightarrow> npfloat" where
  "NFW_Hilbert_density self R =
     (let x = np_divide R (NFW_Hilbert.r_s self)
      in np_divide (NFW_Hilbert.rho_s self) (np_mul x (np_pow_int (np_add (Fin 1) x) 2)))"

definition NFW_Hilbert_surface_mass_density ::
  "(npfloat \<Rightarrow> npfloat) \<Rightarrow> NFW_Hilbert \<Rightarrow> npfloat \<Rightarrow> npfloat" where
  "NFW_Hilbert_surface_mass_density f self R =
     (let x = np_divide R (NFW_Hilbert.r_s self);
          fx = f x;
          sigma = np_mul
                    (np_mul (np_mul (Fin 2) (NFW_Hilbert.rho_s self)) (NFW_Hilbert.r_s self))
                    (np_divide fx (np_sub (np_pow_int x 2) (Fin 1)))
      in np_where (fx = Fin 0) (Fin 0) sigma)"

definition NFW_Hilbert_convergence ::
  "(npfloat \<Rightarrow> npfloat) \<Rightarrow> NFW_Hilbert \<Rightarrow> npfloat \<Rightarrow> npfloat" where
  "NFW_Hilbert_convergence f self R =
     (let x = np_divide R (NFW_Hilbert.r_s self);
          fx = f x;
          kappa = np_divide (np_mul (np_mul (Fin 2) (NFW_Hilbert.kappa_s self)) fx)
                    (np_sub (np_pow_int x 2) (Fin 1))
      in np_where (fx = Fin 0) (Fin 0) kappa)"

definition NFW_Hilbert_deflection_angles ::
  "(npfloat \<Rightarrow> npfloat) \<Rightarrow> NFW_Hilbert \<Rightarrow> npfloat \<Rightarrow> npfloat" where
  "NFW_Hilbert_deflection_angles f self R =
     (let x = np_divide R (NFW_Hilbert.r_s self);
          fx = f x;
          alpha = np_mul
                    (np_mul (np_mul (Fin 4) (NFW_Hilbert.kappa_s self)) (NFW_Hilbert.r_s self))
                    (np_divide (np_add (np_log (np_divide x (Fin 2))) (np_sub (Fin 1) fx)) x)
      in alpha)"

definition NFW_Hilbert_density_from_radii :: "NFW_Hilbert \<Rightarrow> npfloat list \<Rightarrow> npfloat list" where
  "NFW_Hilbert_density_from_radii self radii = map (NFW_Hilbert_density self) radii"

definition NFW_Hilbert_surface_mass_density_from_radii ::
  "(npfloat \<Rightarrow> npfloat) \<Rightarrow> NFW_Hilbert \<Rightarrow> npfloat list \<Rightarrow> npfloat list" where
  "NFW_Hilbert_surface_mass_density_from_radii f self radii =
     map (NFW_Hilbert_surface_mass_density f self) radii"

definition NFW_Hilbert_convergence_from_radii ::
  "(npfloat \<Rightarrow> npfloat) \<Rightarrow> NFW_Hilbert \<Rightarrow> npfloat list \<Rightarrow> npfloat list" where
  "NFW_Hilbert_convergence_from_radii f self radii = map (NFW_Hilbert_convergence f self) radii"

definition NFW_Hilbert_deflection_angles_from_radii ::
  "(npfloat \<Rightarrow> npfloat) \<Rightarrow> NFW_Hilbert \<Rightarrow> npfloat list \<Rightarrow> npfloat list" where
  "NFW_Hilbert_deflection_angles_from_radii f self radii =
     map (NFW_Hilbert_deflection_angles f self) radii"


text \<open>The density in double precision, every operation rounded.\<close>

definition NFW_Hilbert_density_double :: "NFW_Hilbert \<Rightarrow> npfloat \<Rightarrow> npfloat" where
  "NFW_Hilbert_density_double self R =
     (let x = dbl_divide R (NFW_Hilbert.r_s self)
      in dbl_divide (NFW_Hilbert.rho_s self) (dbl_mul x (dbl_square (dbl_add (Fin 1) x))))"

definition NFW_Hilbert_density_from_radii_double ::
  "NFW_Hilbert \<Rightarrow> npfloat list \<Rightarrow> npfloat list" where
  "NFW_Hilbert_density_from_radii_double self radii =
     map (NFW_Hilbert_density_double self) radii"

section \<open>Calling an evaluator on an instance\<close>

text \<open>
  The evaluators once more, as methods of an object whose state is explicit: a method is
  a computation in the state monad over the instance, and every line of its body is one
  step. \<open>getattr\<close> is the read of an attribute, \<^verbatim>\<open>self.r_s\<close>; the state monad's
  \<open>set\<close> and \<open>update\<close> would be an assignment to one. The inherited \<^verbatim>\<open>self.f_func(x)\<close> is
  a method call on the same instance and is a parameter: a computation that takes the
  array \<open>x\<close> and may itself read or write the instance. The arrays \<open>x\<close> and \<open>f\<close> are new
  objects, and the array \<open>radii\<close> of the caller is only read.
\<close>

definition getattr :: "('self \<Rightarrow> 'a) \<Rightarrow> ('self, 'a) state" where
  "getattr a = State (\<lambda>self. (a self, self))"

definition SphericalPowerLaw_density_from_radii_method ::
  "npfloat list \<Rightarrow> (SphericalPowerLaw, npfloat list) state" where
  "SphericalPowerLaw_density_from_radii_method radii = do {
     sigma_cr \<leftarrow> getattr critical_surface_density_of_lens;
     slope' \<leftarrow> getattr slope;
     let rho = map (\<lambda>R. np_mul sigma_cr (np_power (np_divide (Fin 1) R) slope')) radii;
     State_Monad.return rho
   }"

definition SphericalPowerLaw_surface_mass_density_from_radii_method ::
  "npfloat list \<Rightarrow> (SphericalPowerLaw, npfloat list) state" where
  "SphericalPowerLaw_surface_mass_density_from_radii_method radii = do {
     sigma_cr \<leftarrow> getattr critical_surface_density_of_lens;
     slope' \<leftarrow> getattr slope;
     einstein_radius' \<leftarrow> getattr einstein_radius;
     slope'' \<leftarrow> getattr slope;
     let rho = map (\<lambda>R. np_mul
                       (np_mul sigma_cr (np_divide (Fin (3 - slope')) (Fin 2)))
                       (np_power (np_divide (Fin einstein_radius') R) (slope'' - 1))) radii;
     State_Monad.return rho
   }"

definition SphericalPowerLaw_convergence_from_radii_method ::
  "npfloat list \<Rightarrow> (SphericalPowerLaw, npfloat list) state" where
  "SphericalPowerLaw_convergence_from_radii_method radii = do {
     slope' \<leftarrow> getattr slope;
     einstein_radius' \<leftarrow> getattr einstein_radius;
     slope'' \<leftarrow> getattr slope;
     let kappa = map (\<lambda>R. np_mul (np_divide (Fin (3 - slope')) (Fin 2))
                         (np_power (np_divide (Fin einstein_radius') R) (slope'' - 1))) radii;
     State_Monad.return kappa
   }"

definition SphericalPowerLaw_deflection_angles_from_radii_method ::
  "npfloat list \<Rightarrow> (SphericalPowerLaw, npfloat list) state" where
  "SphericalPowerLaw_deflection_angles_from_radii_method radii = do {
     einstein_radius' \<leftarrow> getattr einstein_radius;
     einstein_radius'' \<leftarrow> getattr einstein_radius;
     slope' \<leftarrow> getattr slope;
     let alpha = map (\<lambda>R. np_mul (Fin einstein_radius')
                         (np_power (np_divide (Fin einstein_radius'') R) (slope' - 2))) radii;
     State_Monad.return alpha
   }"

definition Hernquist_density_from_radii_method ::
  "npfloat list \<Rightarrow> (Hernquist, npfloat list) state" where
  "Hernquist_density_from_radii_method radii = do {
     r_s' \<leftarrow> getattr Hernquist.r_s;
     let x = map (\<lambda>R. np_divide R r_s') radii;
     rho_s' \<leftarrow> getattr Hernquist.rho_s;
     State_Monad.return
       (map (\<lambda>x. np_divide rho_s' (np_mul x (np_pow_int (np_add (Fin 1) x) 3))) x)
   }"

definition Hernquist_surface_mass_density_from_radii_method ::
  "(npfloat list \<Rightarrow> (Hernquist, npfloat list) state) \<Rightarrow> npfloat list
     \<Rightarrow> (Hernquist, npfloat list) state" where
  "Hernquist_surface_mass_density_from_radii_method f_func' radii = do {
     r_s' \<leftarrow> getattr Hernquist.r_s;
     let x = map (\<lambda>R. np_divide R r_s') radii;
     f \<leftarrow> f_func' x;
     rho_s' \<leftarrow> getattr Hernquist.rho_s;
     r_s'' \<leftarrow> getattr Hernquist.r_s;
     State_Monad.return
       (map2 (\<lambda>x fx. np_where (fx = Fin 0) (Fin 0)
                 (np_mul
                    (np_divide (np_mul rho_s' r_s'')
                       (np_pow_int (np_sub (np_pow_int x 2) (Fin 1)) 2))
                    (np_add (Fin (- 3))
                       (np_mul (np_sub (Fin 1) fx) (np_add (Fin 2) (np_pow_int x 2))))))
          x f)
   }"

definition Hernquist_convergence_from_radii_method ::
  "(npfloat list \<Rightarrow> (Hernquist, npfloat list) state) \<Rightarrow> npfloat list
     \<Rightarrow> (Hernquist, npfloat list) state" where
  "Hernquist_convergence_from_radii_method f_func' radii = do {
     r_s' \<leftarrow> getattr Hernquist.r_s;
     let x = map (\<lambda>R. np_divide R r_s') radii;
     f \<leftarrow> f_func' x;
     kappa_s' \<leftarrow> getattr Hernquist.kappa_s;
     State_Monad.return
       (map2 (\<lambda>x fx. np_where (fx = Fin 0) (Fin 0)
                 (np_mul
                    (np_divide kappa_s' (np_pow_int (np_sub (np_pow_int x 2) (Fin 1)) 2))
                    (np_add (Fin (- 3))
                       (np_mul (np_sub (Fin 1) fx) (np_add (Fin 2) (np_pow_int x 2))))))
          x f)
   }"

definition Hernquist_deflection_angles_from_radii_method ::
  "(npfloat list \<Rightarrow> (Hernquist, npfloat list) state) \<Rightarrow> npfloat list
     \<Rightarrow> (Hernquist, npfloat list) state" where
  "Hernquist_deflection_angles_from_radii_method f_func' radii = do {
     r_s' \<leftarrow> getattr Hernquist.r_s;
     let x = map (\<lambda>R. np_divide R r_s') radii;
     f \<leftarrow> f_func' x;
     kappa_s' \<leftarrow> getattr Hernquist.kappa_s;
     r_s'' \<leftarrow> getattr Hernquist.r_s;
     State_Monad.return
       (map2 (\<lambda>x fx. np_where (fx = Fin 0) (Fin 0)
                 (np_mul (np_mul (np_mul (Fin 2) kappa_s') r_s'')
                    (np_divide (np_mul x fx) (np_sub (np_pow_int x 2) (Fin 1)))))
          x f)
   }"

definition NFW_Hilbert_density_from_radii_method ::
  "npfloat list \<Rightarrow> (NFW_Hilbert, npfloat list) state" where
  "NFW_Hilbert_density_from_radii_method radii = do {
     r_s' \<leftarrow> getattr NFW_Hilbert.r_s;
     let x = map (\<lambda>R. np_divide R r_s') radii;
     rho_s' \<leftarrow> getattr NFW_Hilbert.rho_s;
     State_Monad.return
       (map (\<lambda>x. np_divide rho_s' (np_mul x (np_pow_int (np_add (Fin 1) x) 2))) x)
   }"

definition NFW_Hilbert_surface_mass_density_from_radii_method ::
  "(npfloat list \<Rightarrow> (NFW_Hilbert, npfloat list) state) \<Rightarrow> npfloat list
     \<Rightarrow> (NFW_Hilbert, npfloat list) state" where
  "NFW_Hilbert_surface_mass_density_from_radii_method f_func' radii = do {
     r_s' \<leftarrow> getattr NFW_Hilbert.r_s;
     let x = map (\<lambda>R. np_divide R r_s') radii;
     f \<leftarrow> f_func' x;
     rho_s' \<leftarrow> getattr NFW_Hilbert.rho_s;
     r_s'' \<leftarrow> getattr NFW_Hilbert.r_s;
     let sigma = map2 (\<lambda>x fx. np_mul (np_mul (np_mul (Fin 2) rho_s') r_s'')
                          (np_divide fx (np_sub (np_pow_int x 2) (Fin 1)))) x f;
     State_Monad.return (map2 (\<lambda>fx s. np_where (fx = Fin 0) (Fin 0) s) f sigma)
   }"

definition NFW_Hilbert_convergence_from_radii_method ::
  "(npfloat list \<Rightarrow> (NFW_Hilbert, npfloat list) state) \<Rightarrow> npfloat list
     \<Rightarrow> (NFW_Hilbert, npfloat list) state" where
  "NFW_Hilbert_convergence_from_radii_method f_func' radii = do {
     r_s' \<leftarrow> getattr NFW_Hilbert.r_s;
     let x = map (\<lambda>R. np_divide R r_s') radii;
     f \<leftarrow> f_func' x;
     kappa_s' \<leftarrow> getattr NFW_Hilbert.kappa_s;
     let kappa = map2 (\<lambda>x fx. np_divide (np_mul (np_mul (Fin 2) kappa_s') fx)
                          (np_sub (np_pow_int x 2) (Fin 1))) x f;
     State_Monad.return (map2 (\<lambda>fx k. np_where (fx = Fin 0) (Fin 0) k) f kappa)
   }"

definition NFW_Hilbert_deflection_angles_from_radii_method ::
  "(npfloat list \<Rightarrow> (NFW_Hilbert, npfloat list) state) \<Rightarrow> npfloat list
     \<Rightarrow> (NFW_Hilbert, npfloat list) state" where
  "NFW_Hilbert_deflection_angles_from_radii_method f_func' radii = do {
     r_s' \<leftarrow> getattr NFW_Hilbert.r_s;
     let x = map (\<lambda>R. np_divide R r_s') radii;
     f \<leftarrow> f_func' x;
     kappa_s' \<leftarrow> getattr NFW_Hilbert.kappa_s;
     r_s'' \<leftarrow> getattr NFW_Hilbert.r_s;
     let alpha = map2 (\<lambda>x fx. np_mul (np_mul (np_mul (Fin 4) kappa_s') r_s'')
                          (np_divide
                             (np_add (np_log (np_divide x (Fin 2))) (np_sub (Fin 1) fx)) x))
                   x f;
     State_Monad.return alpha
   }"

text \<open>The four evaluators of each class, by name.\<close>

datatype evaluator =
  density_from_radii
  | surface_mass_density_from_radii
  | convergence_from_radii
  | deflection_angles_from_radii

definition SphericalPowerLaw_method ::
  "evaluator \<Rightarrow> npfloat list \<Rightarrow> (SphericalPowerLaw, npfloat list) state" where
  "SphericalPowerLaw_method ev radii =
     (case ev of
        density_from_radii \<Rightarrow> SphericalPowerLaw_density_from_radii_method radii
      | surface_mass_density_from_radii \<Rightarrow>
          SphericalPowerLaw_surface_mass_density_from_radii_method radii
      | convergence_from_radii \<Rightarrow> SphericalPowerLaw_convergence_from_radii_method radii
      | deflection_angles_from_radii \<Rightarrow>
          SphericalPowerLaw_deflection_angles_from_radii_method radii)"

definition Hernquist_method ::
  "(npfloat list \<Rightarrow> (Hernquist, npfloat list) state) \<Rightarrow> evaluator \<Rightarrow> npfloat list
     \<Rightarrow> (Hernquist, npfloat list) state" where
  "Hernquist_method f_func' ev radii =
     (case ev of
        density_from_radii \<Rightarrow> Hernquist_density_from_radii_method radii
      | surface_mass_density_from_radii \<Rightarrow>
          Hernquist_surface_mass_density_from_radii_method f_func' radii
      | convergence_from_radii \<Rightarrow> Hernquist_convergence_from_radii_method f_func' radii
      | deflection_angles_from_radii \<Rightarrow>
          Hernquist_deflection_angles_from_radii_method f_func' radii)"

definition NFW_Hilbert_method ::
  "(npfloat list \<Rightarrow> (NFW_Hilbert, npfloat list) state) \<Rightarrow> evaluator \<Rightarrow> npfloat list
     \<Rightarrow> (NFW_Hilbert, npfloat list) state" where
  "NFW_Hilbert_method f_func' ev radii =
     (case ev of
        density_from_radii \<Rightarrow> NFW_Hilbert_density_from_radii_method radii
      | surface_mass_density_from_radii \<Rightarrow>
          NFW_Hilbert_surface_mass_density_from_radii_method f_func' radii
      | convergence_from_radii \<Rightarrow> NFW_Hilbert_convergence_from_radii_method f_func' radii
      | deflection_angles_from_radii \<Rightarrow>
          NFW_Hilbert_deflection_angles_from_radii_method f_func' radii)"

section \<open>Test data\<close>

text \<open>
  A cosmology in which every distance, the critical density, the Hubble parameter, the
  concentration and the physical constants are 1, and the radius grid of the
  specification's consistency test, \<^verbatim>\<open>[0.1, 1, 5, 10, 100]\<close>.
\<close>

definition test_cosmology :: cosmology where
  "test_cosmology =
     \<lparr>speed_of_light = 1,
      gravitational_constant = 1,
      angular_diameter_distance = (\<lambda>z. Fin 1),
      angular_diameter_distance_z1z2 = (\<lambda>z1 z2. Fin 1),
      critical_density = (\<lambda>z. Fin 1),
      col_h = 1,
      col_concentration = (\<lambda>M z. Fin 1)\<rparr>"

definition test_grid :: "npfloat list" where
  "test_grid = [Fin 0.1, Fin 1, Fin 5, Fin 10, Fin 100]"


section \<open>Arithmetic of the float model\<close>

lemma inf_of_pos [simp]: "0 < a \<Longrightarrow> inf_of a = PInf"
  and inf_of_neg [simp]: "a < 0 \<Longrightarrow> inf_of a = NInf"
  and inf_of_zero [simp]: "inf_of 0 = NaN"
  by (simp_all add: inf_of_def)

lemma np_sub_Fin [simp]: "np_sub (Fin a) (Fin b) = Fin (a - b)"
  by (simp add: np_sub_def)




lemma finite_posE:
  assumes "finite_pos v"
  obtains a where "v = Fin a" "0 < a"
  using assms by (cases v) simp_all

text \<open>The logarithm bound that makes the NFW normalisation positive.\<close>

lemma ln_one_plus_lower:
  assumes "0 < (c::real)"
  shows "c / (1 + c) < ln (1 + c)"
proof -
  have p: "0 < 1 / (1 + c)" using assms by simp
  have ne: "1 / (1 + c) \<noteq> 1" using assms by simp
  have "ln (1 / (1 + c)) \<le> 1 / (1 + c) - 1" by (rule ln_le_minus_one [OF p])
  moreover have "ln (1 / (1 + c)) \<noteq> 1 / (1 + c) - 1"
    using ln_eq_minus_one [OF p] ne by blast
  ultimately have "ln (1 / (1 + c)) < 1 / (1 + c) - 1" by simp
  moreover have "ln (1 / (1 + c)) = - ln (1 + c)" using assms by (simp add: ln_div)
  moreover have "1 / (1 + c) - 1 = - (c / (1 + c))" using assms by (simp add: field_simps)
  ultimately show ?thesis by simp
qed

text \<open>The helper of the specification is finite and positive on every positive argument.\<close>

lemma f_func_finite_pos:
  assumes "0 < x"
  shows "finite_pos (f_func (Fin x))"
proof -
  consider "x < 1" | "x = 1" | "1 < x" by linarith
  then show ?thesis
  proof cases
    case 1
    define s where "s = sqrt (1 - x\<^sup>2)"
    have "x\<^sup>2 < 1" using 1 assms by (simp add: power_less_one_iff)
    moreover have "0 < x\<^sup>2" using assms by simp
    ultimately have s: "0 < s" "s < 1" by (simp_all add: s_def)
    then have "1 < (1 + s) / (1 - s)" by (simp add: field_simps)
    then have "0 < artanh s" by (simp add: artanh_def)
    then show ?thesis using 1 assms s by (simp add: s_def [symmetric])
  next
    case 2
    then show ?thesis by simp
  next
    case 3
    have "1 < x\<^sup>2" using 3 by simp
    then have s: "0 < sqrt (x\<^sup>2 - 1)" by simp
    then have "0 < arctan (sqrt (x\<^sup>2 - 1))" by (simp only: zero_less_arctan_iff)
    then show ?thesis using 3 s by simp
  qed
qed

section \<open>Rounding to a double\<close>

lemma rne_cases: "rne q = \<lfloor>q\<rfloor> \<or> rne q = \<lfloor>q\<rfloor> + 1"
  by (simp add: rne_def Let_def)

lemma rne_of_int [simp]: "rne (of_int n) = n"
  by (simp add: rne_def)

lemma rne_ge: "of_int m \<le> q \<Longrightarrow> m \<le> rne q"
proof -
  assume "of_int m \<le> q"
  then have "m \<le> \<lfloor>q\<rfloor>" by (simp add: le_floor_iff)
  then show ?thesis using rne_cases [of q] by auto
qed

lemma rne_le: "q \<le> of_int m \<Longrightarrow> rne q \<le> m"
proof -
  assume a: "q \<le> of_int m"
  show ?thesis
  proof (cases "q = of_int m")
    case True
    then show ?thesis by simp
  next
    case False
    then have "q < of_int m" using a by simp
    then have "\<lfloor>q\<rfloor> < m" by (simp add: floor_less_iff)
    then show ?thesis using rne_cases [of q] by auto
  qed
qed

lemma rne_mono: "x \<le> y \<Longrightarrow> rne x \<le> rne y"
proof -
  assume xy: "x \<le> y"
  then have f: "\<lfloor>x\<rfloor> \<le> \<lfloor>y\<rfloor>" by (rule floor_mono)
  show ?thesis
  proof (cases "\<lfloor>x\<rfloor> = \<lfloor>y\<rfloor>")
    case True
    then have "x - of_int \<lfloor>x\<rfloor> \<le> y - of_int \<lfloor>y\<rfloor>" using xy by simp
    then show ?thesis using True by (auto simp: rne_def Let_def)
  next
    case False
    then have "\<lfloor>x\<rfloor> + 1 \<le> \<lfloor>y\<rfloor>" using f by simp
    moreover have "rne x \<le> \<lfloor>x\<rfloor> + 1" using rne_cases [of x] by auto
    moreover have "\<lfloor>y\<rfloor> \<le> rne y" using rne_cases [of y] by auto
    ultimately show ?thesis by linarith
  qed
qed

lemma two_powr_int:
  "2 powr real_of_int k = 2 powi k" "2 powr (real_of_int k + 1) = 2 powi (k + 1)"
  using powr_real_of_int' [of 2 k] powr_real_of_int' [of 2 "k + 1"] by simp_all

lemma two_powi_split: "(2::real) ^ n * 2 powi (k - int n) = 2 powi k"
proof -
  have "(2::real) powi (int n + (k - int n)) = 2 powi int n * 2 powi (k - int n)"
    by (rule power_int_add) simp
  then show ?thesis by simp
qed

lemma two_powi_floor_log:
  assumes "0 < x"
  shows "2 powi \<lfloor>log 2 x\<rfloor> \<le> x" and "x < 2 powi (\<lfloor>log 2 x\<rfloor> + 1)"
  using floor_log_eq_powr_iff [of x 2 "\<lfloor>log 2 x\<rfloor>"] assms
  by (simp_all add: two_powr_int)

lemma floor_log_eq:
  assumes "0 < x" "2 powi k \<le> x" "x < 2 powi (k + 1)"
  shows "\<lfloor>log 2 x\<rfloor> = k"
  using floor_log_eq_powr_iff [of x 2 k] assms by (simp add: two_powr_int)

lemma binade_eq:
  assumes "0 < x" "2 powi k \<le> x" "x < 2 powi (k + 1)" "- 1022 \<le> k"
  shows "binade x = k"
  using floor_log_eq [OF assms(1,2,3)] assms(1,4) by (simp add: binade_def)

lemma binade_mono:
  assumes "0 < x" "x \<le> y"
  shows "binade x \<le> binade y"
proof -
  have "log 2 x \<le> log 2 y" using assms by simp
  then have "\<lfloor>log 2 x\<rfloor> \<le> \<lfloor>log 2 y\<rfloor>" by (rule floor_mono)
  then show ?thesis using assms by (simp add: binade_def)
qed

lemma binade_upper:
  assumes "0 < x"
  shows "x < 2 powi (binade x + 1)"
proof -
  have "x < 2 powi (\<lfloor>log 2 x\<rfloor> + 1)" by (rule two_powi_floor_log [OF assms])
  also have "\<dots> \<le> 2 powi (binade x + 1)"
    using assms by (intro power_int_increasing) (simp_all add: binade_def)
  finally show ?thesis .
qed

lemma binade_lower:
  assumes "0 < x" "- 1022 < binade x"
  shows "2 powi binade x \<le> x"
proof -
  have "binade x = \<lfloor>log 2 x\<rfloor>" using assms by (simp add: binade_def)
  then show ?thesis using two_powi_floor_log(1) [OF assms(1)] by simp
qed

lemma rounded_nonneg:
  assumes "0 < x"
  shows "0 \<le> rounded x"
proof -
  have "0 \<le> x / 2 powi (binade x - 52)" using assms by simp
  then have "0 \<le> rne (x / 2 powi (binade x - 52))"
    using rne_ge [of 0] by simp
  then show ?thesis by (simp add: rounded_def)
qed

lemma round_double_pos:
  assumes "0 < x"
  shows "round_double x = (if 2 ^ 1024 \<le> rounded x then PInf else Fin (rounded x))"
  using assms rounded_nonneg [OF assms] by (simp add: round_double_def inf_of_def)

lemma rounded_upper:
  assumes "0 < x"
  shows "rounded x \<le> 2 powi (binade x + 1)"
proof -
  let ?u = "(2::real) powi (binade x - 52)"
  have u: "0 < ?u" by simp
  have "x / ?u < 2 powi (binade x + 1) / ?u"
    using binade_upper [OF assms] u by (simp add: divide_strict_right_mono)
  also have "2 powi (binade x + 1) / ?u = (2::real) powi 53"
    by (simp add: power_int_diff [symmetric])
  finally have "x / ?u \<le> of_int (2 ^ 53)" by simp
  then have "rne (x / ?u) \<le> 2 ^ 53" by (rule rne_le)
  then have "of_int (rne (x / ?u)) \<le> (2::real) ^ 53"
    by (metis of_int_le_iff of_int_numeral of_int_power)
  then have "rounded x \<le> 2 ^ 53 * ?u"
    using u by (simp add: rounded_def)
  also have "(2::real) ^ 53 * ?u = 2 powi (binade x + 1)"
    using two_powi_split [of 53 "binade x + 1"] by simp
  finally show ?thesis .
qed

lemma rounded_lower:
  assumes "0 < x" "- 1022 < binade x"
  shows "2 powi binade x \<le> rounded x"
proof -
  let ?u = "(2::real) powi (binade x - 52)"
  have u: "0 < ?u" by simp
  have "2 powi binade x / ?u \<le> x / ?u"
    using binade_lower [OF assms] u by (simp add: divide_right_mono)
  moreover have "2 powi binade x / ?u = (2::real) powi 52"
    by (simp add: power_int_diff [symmetric])
  ultimately have "of_int (2 ^ 52) \<le> x / ?u" by simp
  then have "2 ^ 52 \<le> rne (x / ?u)" by (rule rne_ge)
  then have "(2::real) ^ 52 \<le> of_int (rne (x / ?u))"
    by (metis of_int_le_iff of_int_numeral of_int_power)
  then have "2 ^ 52 * ?u \<le> rounded x"
    using u by (simp add: rounded_def)
  moreover have "(2::real) ^ 52 * ?u = 2 powi binade x"
    using two_powi_split [of 52 "binade x"] by simp
  ultimately show ?thesis by simp
qed

lemma rounded_mono:
  assumes "0 < x" "x \<le> y"
  shows "rounded x \<le> rounded y"
proof (cases "binade x = binade y")
  case True
  have "x / 2 powi (binade y - 52) \<le> y / 2 powi (binade y - 52)"
    using assms(2) by (simp add: divide_right_mono)
  then have "rne (x / 2 powi (binade y - 52)) \<le> rne (y / 2 powi (binade y - 52))"
    by (rule rne_mono)
  then show ?thesis by (simp add: rounded_def True)
next
  case False
  have y: "0 < y" using assms by simp
  have lt: "binade x < binade y" using binade_mono [OF assms] False by simp
  moreover have "- 1022 \<le> binade x" by (simp add: binade_def)
  ultimately have "- 1022 < binade y" by simp
  then have "2 powi binade y \<le> rounded y" by (rule rounded_lower [OF y])
  moreover have "rounded x \<le> 2 powi (binade x + 1)" by (rule rounded_upper [OF assms(1)])
  moreover have "(2::real) powi (binade x + 1) \<le> 2 powi binade y"
    using lt by (intro power_int_increasing) simp_all
  ultimately show ?thesis by linarith
qed

text \<open>Rounding is monotone, and a double is rounded to itself.\<close>

lemma round_double_mono:
  assumes "0 \<le> x" "x \<le> y"
  shows "np_le (round_double x) (round_double y)"
proof (cases "x = 0")
  case True
  show ?thesis
  proof (cases "y = 0")
    case True
    with \<open>x = 0\<close> show ?thesis by (simp add: round_double_def)
  next
    case False
    then have y: "0 < y" using assms True by simp
    show ?thesis
      using True round_double_pos [OF y] rounded_nonneg [OF y]
      by (simp add: round_double_def)
  qed
next
  case False
  then have x: "0 < x" using assms by simp
  then have y: "0 < y" using assms by simp
  show ?thesis
    using rounded_mono [OF x assms(2)] round_double_pos [OF x] round_double_pos [OF y]
    by auto
qed

lemma round_double_nonneg:
  assumes "0 \<le> x"
  shows "round_double x = PInf \<or> (\<exists>v. round_double x = Fin v \<and> 0 \<le> v)"
proof (cases "x = 0")
  case True
  then show ?thesis by (simp add: round_double_def)
next
  case False
  then have x: "0 < x" using assms by simp
  show ?thesis
    using round_double_pos [OF x] rounded_nonneg [OF x] by auto
qed

lemma rounded_eval:
  assumes "0 < x" "2 powi k \<le> x" "x < 2 powi (k + 1)" "- 1022 \<le> k"
  shows "rounded x = of_int (rne (x / 2 powi (k - 52))) * 2 powi (k - 52)"
  by (simp add: rounded_def binade_eq [OF assms])

lemma round_double_exact:
  assumes "0 < x" "2 powi k \<le> x" "x < 2 powi (k + 1)" "- 1022 \<le> k" "k < 1024"
    and "x / 2 powi (k - 52) = of_int m"
  shows "round_double x = Fin x"
proof -
  have "rounded x = of_int m * 2 powi (k - 52)"
    by (simp add: rounded_eval [OF assms(1-4)] assms(6))
  also have "\<dots> = x"
    using assms(6) by (simp add: field_simps)
  finally have r: "rounded x = x" .
  have "x < 2 powi (k + 1)" by (rule assms(3))
  also have "(2::real) powi (k + 1) \<le> 2 powi 1024"
    using assms(5) by (intro power_int_increasing) simp_all
  finally have "x < 2 ^ 1024" by simp
  then show ?thesis
    using round_double_pos [OF assms(1)] r by simp
qed

lemma round_double_overflow:
  assumes "2 ^ 1024 \<le> x"
  shows "round_double x = PInf"
proof -
  have "(0::real) < 2 ^ 1024" by simp
  then have x: "0 < x" using assms by linarith
  have "(2::real) powi 1024 \<le> x" using assms by simp
  then have "real_of_int 1024 \<le> log 2 x"
    using x by (simp add: le_log_iff two_powr_int(1) [of 1024, simplified])
  then have l: "1024 \<le> \<lfloor>log 2 x\<rfloor>" by (simp add: le_floor_iff)
  then have b: "1024 \<le> binade x" using x by (simp add: binade_def)
  then have "2 powi binade x \<le> rounded x"
    by (intro rounded_lower [OF x]) simp
  moreover have "(2::real) powi 1024 \<le> 2 powi binade x"
    using b by (intro power_int_increasing) simp_all
  ultimately have "2 ^ 1024 \<le> rounded x" by simp
  then show ?thesis using round_double_pos [OF x] by simp
qed

lemma round_double_zero [simp]: "round_double 0 = Fin 0"
  by (simp add: round_double_def)

lemma round_double_one [simp]: "round_double 1 = Fin 1"
  by (rule round_double_exact [where k = 0 and m = "2 ^ 52"]) simp_all


section \<open>The constructors\<close>

lemma Hernquist_init_attrs:
  assumes "Hernquist_init cosmo M R_e zs zl = Inr p"
  shows "half_mass_radius p = Fin (R_e * 1.33)"
    and "Hernquist.r_s p = Fin (R_e / 1.8153)"
    and "Hernquist.rho_s p
           = np_divide (Fin M) (np_mul (Fin (2 * pi)) (np_pow_int (Hernquist.r_s p) 3))"
    and "Hernquist.kappa_s p
           = np_divide (np_mul (Hernquist.rho_s p) (Hernquist.r_s p))
               (critical_surface_density_of_lens p)"
    and "critical_surface_density_of_lens p = critical_surface_density cosmo zl zs"
    and "zl < zs"
  using assms
  by (auto simp: Hernquist_init_def LensProfile_init_def Let_def split: if_splits)


text \<open>The instances built from the test data.\<close>

lemma py_float_pow_bounded:
  assumes "\<bar>v\<bar> \<le> b" and "b ^ n < 2 ^ 1024 - 2 ^ 970"
  shows "\<not> py_float_pow_overflows v n"
proof -
  have "\<bar>v ^ n\<bar> = \<bar>v\<bar> ^ n" by (rule power_abs)
  also have "\<dots> \<le> b ^ n" using assms(1) by (intro power_mono) simp_all
  finally show ?thesis using assms(2) by (simp add: py_float_pow_overflows_def)
qed

lemma test_critical_surface_density:
  "critical_surface_density test_cosmology zl zs = Fin (1 / (4 * pi))"
  by (simp add: critical_surface_density_def test_cosmology_def)

lemma test_SphericalPowerLaw:
  "\<exists>p. SphericalPowerLaw_init test_cosmology 1 2 1 (3 / 10) = Inr p
     \<and> einstein_radius p = 1 \<and> slope p = 2
     \<and> critical_surface_density_of_lens p = Fin (1 / (4 * pi))"
  by (simp add: SphericalPowerLaw_init_def LensProfile_init_def Let_def
      test_critical_surface_density py_float_pow_overflows_def)

lemma test_Hernquist:
  "\<exists>p. Hernquist_init test_cosmology (10 ^ 11) 5 1 (3 / 10) = Inr p
     \<and> Hernquist.r_s p = Fin (5 / 1.8153)
     \<and> Hernquist.kappa_s p = Fin (10 ^ 11 / (2 * pi * (5 / 1.8153) ^ 3) * (5 / 1.8153) * (4 * pi))
     \<and> critical_surface_density_of_lens p = Fin (1 / (4 * pi))"
proof -
  have "\<not> py_float_pow_overflows (5 / 1.8153) 3"
    by (rule py_float_pow_bounded [where b = 3]) simp_all
  then show ?thesis
    by (simp add: Hernquist_init_def LensProfile_init_def Let_def
        test_critical_surface_density)
qed

lemma test_NFW_Hilbert:
  "\<exists>p. NFW_Hilbert_init test_cosmology (10 ^ 13) 2 (1 / 2) = Inr p
     \<and> finite_pos (NFW_Hilbert.rho_s p) \<and> finite_pos (NFW_Hilbert.r_s p)
     \<and> finite_pos (NFW_Hilbert.kappa_s p)
     \<and> critical_surface_density_of_lens p = Fin (1 / (4 * pi))"
proof -
  have "(1::real) / 2 < ln 2"
    using ln_one_plus_lower [of 1] by simp
  then show ?thesis
    by (simp add: NFW_Hilbert_init_def LensProfile_init_def Let_def
        critical_surface_density_def test_cosmology_def zero_less_mult_iff)
qed



section \<open>Surface mass density and convergence\<close>


















section \<open>The isothermal power law\<close>

lemma SphericalPowerLaw_init_attrs:
  assumes "SphericalPowerLaw_init cosmo E g zs zl = Inr p"
  shows "einstein_radius p = E" and "slope p = g"
  using assms
  by (auto simp: SphericalPowerLaw_init_def LensProfile_init_def Let_def split: if_splits)

lemma SphericalPowerLaw_deflection_angles_isothermal:
  assumes "slope p = 2"
  shows "SphericalPowerLaw_deflection_angles p R = Fin (einstein_radius p)"
  using assms
  by (cases "np_divide (Fin (einstein_radius p)) R")
    (simp_all add: SphericalPowerLaw_deflection_angles_def)

text \<open>
  C5. For a SphericalPowerLaw profile constructed with \<^verbatim>\<open>slope = 2\<close> and an array of radii,
  \<^verbatim>\<open>deflection_angles_from_radii\<close> returns the Einstein radius at every element: the
  exponent \<^verbatim>\<open>slope - 2\<close> is zero and a float to the power zero is one. Positive radii are
  a special case.
\<close>

theorem isothermal_deflection_is_einstein_radius:
  assumes "SphericalPowerLaw_init cosmo E 2 zs zl = Inr p"
  shows "SphericalPowerLaw_deflection_angles_from_radii p radii
           = replicate (length radii) (Fin E)
         \<and> einstein_radius p = E"
proof -
  have "slope p = 2" "einstein_radius p = E"
    using SphericalPowerLaw_init_attrs [OF assms] by simp_all
  then have "SphericalPowerLaw_deflection_angles p = (\<lambda>R. Fin E)"
    using SphericalPowerLaw_deflection_angles_isothermal [of p] by (simp add: fun_eq_iff)
  then show ?thesis
    using \<open>einstein_radius p = E\<close>
    by (simp add: SphericalPowerLaw_deflection_angles_from_radii_def map_replicate_const)
qed

theorem isothermal_deflection_is_einstein_radius_witness:
  "\<exists>p. SphericalPowerLaw_init test_cosmology 1 2 1 (3 / 10) = Inr p
     \<and> SphericalPowerLaw_deflection_angles_from_radii p test_grid
         = [Fin 1, Fin 1, Fin 1, Fin 1, Fin 1]"
proof -
  obtain p where p: "SphericalPowerLaw_init test_cosmology 1 2 1 (3 / 10) = Inr p"
    using test_SphericalPowerLaw by blast
  have "length test_grid = 5" by (simp add: test_grid_def)
  then show ?thesis
    using isothermal_deflection_is_einstein_radius [OF p, of test_grid] p
    by (simp add: numeral_eq_Suc)
qed

section \<open>The derived attributes of Hernquist\<close>

text \<open>
  C6. A Hernquist profile constructed with mass \<open>M > 0\<close> and effective radius \<open>R_e > 0\<close> has
  \<^verbatim>\<open>half_mass_radius = 1.33 R_e\<close>, \<^verbatim>\<open>r_s = R_e / 1.8153\<close>,
  \<^verbatim>\<open>rho_s = M / (2 pi r_s^3)\<close>, a finite value, and
  \<^verbatim>\<open>kappa_s = rho_s r_s / critical_surface_density_of_lens\<close>.
\<close>

theorem Hernquist_derived_attributes:
  assumes "Hernquist_init cosmo M R_e zs zl = Inr p" and "0 < M" and "0 < R_e"
  shows "half_mass_radius p = Fin (1.33 * R_e)
       \<and> Hernquist.r_s p = Fin (R_e / 1.8153)
       \<and> Hernquist.rho_s p = Fin (M / (2 * pi * (R_e / 1.8153) ^ 3))
       \<and> Hernquist.kappa_s p
           = np_divide (np_mul (Hernquist.rho_s p) (Hernquist.r_s p))
               (critical_surface_density_of_lens p)"
proof -
  note a = Hernquist_init_attrs [OF assms(1)]
  have "half_mass_radius p = Fin (1.33 * R_e)"
    using a(1) by (simp add: mult.commute)
  moreover have "Hernquist.rho_s p = Fin (M / (2 * pi * (R_e / 1.8153) ^ 3))"
    using a(3) assms(3) by (simp add: a(2))
  ultimately show ?thesis
    using a(2) a(4) by simp
qed

theorem Hernquist_derived_attributes_witness:
  "\<exists>p. Hernquist_init test_cosmology (10 ^ 11) 5 1 (3 / 10) = Inr p
     \<and> half_mass_radius p = Fin 6.65
     \<and> Hernquist.r_s p = Fin (5 / 1.8153)
     \<and> Hernquist.rho_s p = Fin (10 ^ 11 / (2 * pi * (5 / 1.8153) ^ 3))
     \<and> Hernquist.kappa_s p = Fin (10 ^ 11 / (2 * pi * (5 / 1.8153) ^ 3) * (5 / 1.8153) * (4 * pi))"
proof -
  obtain p where p: "Hernquist_init test_cosmology (10 ^ 11) 5 1 (3 / 10) = Inr p"
    "critical_surface_density_of_lens p = Fin (1 / (4 * pi))"
    using test_Hernquist by blast
  show ?thesis
    using Hernquist_derived_attributes [OF p(1)] p by simp
qed

section \<open>The redshift check of the constructors\<close>

text \<open>
  C8. Constructing a profile of any of the three types with \<open>z_s \<le> z_l\<close> fails with
  InvalidRedshift, the condition raised by the base constructor that each of them calls
  first; a construction that succeeds has \<open>z_l < z_s\<close>.
\<close>

theorem construction_checks_redshifts:
  "(zs \<le> zl \<longrightarrow>
      SphericalPowerLaw_init cosmo E g zs zl = Inl InvalidRedshift
      \<and> Hernquist_init cosmo M R_e zs zl = Inl InvalidRedshift
      \<and> NFW_Hilbert_init cosmo m zs zl = Inl InvalidRedshift)
   \<and> (SphericalPowerLaw_init cosmo E g zs zl = Inr p1 \<longrightarrow> zl < zs)
   \<and> (Hernquist_init cosmo M R_e zs zl = Inr p2 \<longrightarrow> zl < zs)
   \<and> (NFW_Hilbert_init cosmo m zs zl = Inr p3 \<longrightarrow> zl < zs)"
  by (auto simp: SphericalPowerLaw_init_def Hernquist_init_def NFW_Hilbert_init_def
      LensProfile_init_def Let_def split: if_splits)

theorem construction_checks_redshifts_witness:
  "SphericalPowerLaw_init test_cosmology 1 2 1 1 = Inl InvalidRedshift
   \<and> Hernquist_init test_cosmology (10 ^ 11) 5 (3 / 10) 1 = Inl InvalidRedshift
   \<and> NFW_Hilbert_init test_cosmology (10 ^ 13) (1 / 2) 2 = Inl InvalidRedshift
   \<and> (\<exists>p. SphericalPowerLaw_init test_cosmology 1 2 1 (3 / 10) = Inr p)
   \<and> (\<exists>p. Hernquist_init test_cosmology (10 ^ 11) 5 1 (3 / 10) = Inr p)
   \<and> (\<exists>p. NFW_Hilbert_init test_cosmology (10 ^ 13) 2 (1 / 2) = Inr p)
   \<and> (3 / 10 :: real) < 1 \<and> (1 / 2 :: real) < 2"
proof -
  obtain p1 where p1: "SphericalPowerLaw_init test_cosmology 1 2 1 (3 / 10) = Inr p1"
    using test_SphericalPowerLaw by blast
  obtain p2 where p2: "Hernquist_init test_cosmology (10 ^ 11) 5 1 (3 / 10) = Inr p2"
    using test_Hernquist by blast
  obtain p3 where p3: "NFW_Hilbert_init test_cosmology (10 ^ 13) 2 (1 / 2) = Inr p3"
    using test_NFW_Hilbert by blast
  have a: "SphericalPowerLaw_init test_cosmology 1 2 1 1 = Inl InvalidRedshift"
    using construction_checks_redshifts [of 1 1 test_cosmology 1 2] by simp
  have b: "Hernquist_init test_cosmology (10 ^ 11) 5 (3 / 10) 1 = Inl InvalidRedshift"
    using construction_checks_redshifts [of "3 / 10" 1 test_cosmology _ _ "10 ^ 11" 5] by simp
  have c: "NFW_Hilbert_init test_cosmology (10 ^ 13) (1 / 2) 2 = Inl InvalidRedshift"
    using construction_checks_redshifts [of "1 / 2" 2 test_cosmology _ _ _ _ "10 ^ 13"] by simp
  have d: "(3 / 10 :: real) < 1"
    using construction_checks_redshifts
      [of 1 "3 / 10" test_cosmology 1 2 "10 ^ 11" 5 "10 ^ 13" p1 p2] p1 p2
    by blast
  have e: "(1 / 2 :: real) < 2"
    using construction_checks_redshifts
      [of 2 "1 / 2" test_cosmology 1 2 "10 ^ 11" 5 "10 ^ 13" _ _ p3] p3
    by blast
  show ?thesis
    using a b c d e p1 p2 p3 by blast
qed

section \<open>The convergence at the scale radius\<close>

lemma Hernquist_convergence_at_r_s:
  assumes "finite_pos (Hernquist.r_s p)" "finite_pos (Hernquist.kappa_s p)"
    and "f (Fin 1) = Fin 1"
  shows "Hernquist_convergence f p (Hernquist.r_s p) = NInf"
proof -
  obtain s where s: "Hernquist.r_s p = Fin s" "0 < s"
    using assms(1) by (rule finite_posE)
  obtain k where k: "Hernquist.kappa_s p = Fin k" "0 < k"
    using assms(2) by (rule finite_posE)
  show ?thesis
    using s(2) k(2) assms(3)
    by (simp add: Hernquist_convergence_def Let_def s(1) k(1) np_where_def)
qed

lemma NFW_Hilbert_convergence_at_r_s:
  assumes "finite_pos (NFW_Hilbert.r_s p)" "finite_pos (NFW_Hilbert.kappa_s p)"
    and "f (Fin 1) = Fin 1"
  shows "NFW_Hilbert_convergence f p (NFW_Hilbert.r_s p) = PInf"
proof -
  obtain s where s: "NFW_Hilbert.r_s p = Fin s" "0 < s"
    using assms(1) by (rule finite_posE)
  obtain k where k: "NFW_Hilbert.kappa_s p = Fin k" "0 < k"
    using assms(2) by (rule finite_posE)
  show ?thesis
    using s(2) k(2) assms(3)
    by (simp add: NFW_Hilbert_convergence_def Let_def s(1) k(1) np_where_def)
qed

text \<open>
  The scenario of the specification, \<^verbatim>\<open>Hernquist(mass=1e11, effective_radius=5, z_s=1.0,
  z_l=0.3)\<close> evaluated at \<^verbatim>\<open>R = r_s\<close> with the helper of the specification: the
  convergence is minus infinity, neither finite nor positive.
\<close>

theorem convergence_at_scale_radius_counterexample:
  "\<exists>p. Hernquist_init test_cosmology (10 ^ 11) 5 1 (3 / 10) = Inr p
     \<and> f_func (np_divide (Hernquist.r_s p) (Hernquist.r_s p)) = Fin 1
     \<and> Hernquist_convergence_from_radii f_func p [Hernquist.r_s p] = [NInf]
     \<and> \<not> list_all finite_pos (Hernquist_convergence_from_radii f_func p [Hernquist.r_s p])"
proof -
  obtain p where p: "Hernquist_init test_cosmology (10 ^ 11) 5 1 (3 / 10) = Inr p"
    "Hernquist.r_s p = Fin (5 / 1.8153)"
    "Hernquist.kappa_s p
       = Fin (10 ^ 11 / (2 * pi * (5 / 1.8153) ^ 3) * (5 / 1.8153) * (4 * pi))"
    using test_Hernquist by blast
  have "Hernquist_convergence f_func p (Hernquist.r_s p) = NInf"
    by (rule Hernquist_convergence_at_r_s) (simp_all add: p(2,3))
  then show ?thesis
    using p(1) by (auto simp: Hernquist_convergence_from_radii_def p(2))
qed

text \<open>
  C2, as the code has it. For a Hernquist or NFW\_Hilbert profile with positive \<^verbatim>\<open>r_s\<close> and
  \<^verbatim>\<open>kappa_s\<close>, evaluated at \<^verbatim>\<open>R = r_s\<close> with \<^verbatim>\<open>f(1) = 1\<close>, \<^verbatim>\<open>convergence_from_radii\<close>
  returns without raising, and the value is not finite: minus infinity for Hernquist, plus
  infinity for NFW\_Hilbert. The mask tests \<^verbatim>\<open>f == 0\<close>, which is false here, and the
  division by \<^verbatim>\<open>x**2 - 1 = 0\<close> is carried out.
\<close>

theorem convergence_at_scale_radius:
  "(finite_pos (Hernquist.r_s p) \<and> finite_pos (Hernquist.kappa_s p) \<and> f (Fin 1) = Fin 1
      \<longrightarrow> Hernquist_convergence_from_radii f p [Hernquist.r_s p] = [NInf])
   \<and> (finite_pos (NFW_Hilbert.r_s q) \<and> finite_pos (NFW_Hilbert.kappa_s q) \<and> f (Fin 1) = Fin 1
      \<longrightarrow> NFW_Hilbert_convergence_from_radii f q [NFW_Hilbert.r_s q] = [PInf])"
  by (simp add: Hernquist_convergence_from_radii_def NFW_Hilbert_convergence_from_radii_def
      Hernquist_convergence_at_r_s NFW_Hilbert_convergence_at_r_s)

theorem convergence_at_scale_radius_witness:
  "\<exists>p q. Hernquist_init test_cosmology (10 ^ 11) 5 1 (3 / 10) = Inr p
     \<and> NFW_Hilbert_init test_cosmology (10 ^ 13) 2 (1 / 2) = Inr q
     \<and> f_func (Fin 1) = Fin 1
     \<and> Hernquist_convergence_from_radii f_func p [Hernquist.r_s p] = [NInf]
     \<and> NFW_Hilbert_convergence_from_radii f_func q [NFW_Hilbert.r_s q] = [PInf]"
proof -
  obtain p where p: "Hernquist_init test_cosmology (10 ^ 11) 5 1 (3 / 10) = Inr p"
    "Hernquist.r_s p = Fin (5 / 1.8153)"
    "Hernquist.kappa_s p
       = Fin (10 ^ 11 / (2 * pi * (5 / 1.8153) ^ 3) * (5 / 1.8153) * (4 * pi))"
    using test_Hernquist by blast
  obtain q where q: "NFW_Hilbert_init test_cosmology (10 ^ 13) 2 (1 / 2) = Inr q"
    "finite_pos (NFW_Hilbert.r_s q)" "finite_pos (NFW_Hilbert.kappa_s q)"
    using test_NFW_Hilbert by blast
  have hp: "finite_pos (Hernquist.r_s p)" "finite_pos (Hernquist.kappa_s p)"
    by (simp_all add: p(2,3))
  have f1: "f_func (Fin 1) = Fin 1" by simp
  show ?thesis
    using convergence_at_scale_radius [of p f_func q] p(1) q hp f1 by blast
qed


section \<open>The mask on the helper's zeros\<close>

lemma f_func_ne_zero:
  assumes "0 < x"
  shows "f_func (Fin x) \<noteq> Fin 0"
  using f_func_finite_pos [OF assms] by (auto elim: finite_posE)

text \<open>
  C3. In the three masked evaluators of Hernquist and the two of NFW\_Hilbert, an element of
  the output is exactly 0 where \<^verbatim>\<open>f(x) = 0\<close>, whatever the masked expression evaluates
  to, and is the expression inside \<^verbatim>\<open>np.where\<close> where \<^verbatim>\<open>f(x) != 0\<close>.
\<close>

theorem mask_forces_zero:
  "\<forall>i<length radii.
     (let x = np_divide (radii ! i) (Hernquist.r_s p); fx = f x in
        (fx = Fin 0 \<longrightarrow>
           Hernquist_surface_mass_density_from_radii f p radii ! i = Fin 0
           \<and> Hernquist_convergence_from_radii f p radii ! i = Fin 0
           \<and> Hernquist_deflection_angles_from_radii f p radii ! i = Fin 0)
      \<and> (fx \<noteq> Fin 0 \<longrightarrow>
           Hernquist_surface_mass_density_from_radii f p radii ! i
             = np_mul
                 (np_divide (np_mul (Hernquist.rho_s p) (Hernquist.r_s p))
                    (np_pow_int (np_sub (np_pow_int x 2) (Fin 1)) 2))
                 (np_add (Fin (- 3))
                    (np_mul (np_sub (Fin 1) fx) (np_add (Fin 2) (np_pow_int x 2))))
           \<and> Hernquist_convergence_from_radii f p radii ! i
             = np_mul
                 (np_divide (Hernquist.kappa_s p)
                    (np_pow_int (np_sub (np_pow_int x 2) (Fin 1)) 2))
                 (np_add (Fin (- 3))
                    (np_mul (np_sub (Fin 1) fx) (np_add (Fin 2) (np_pow_int x 2))))
           \<and> Hernquist_deflection_angles_from_radii f p radii ! i
             = np_mul (np_mul (np_mul (Fin 2) (Hernquist.kappa_s p)) (Hernquist.r_s p))
                 (np_divide (np_mul x fx) (np_sub (np_pow_int x 2) (Fin 1)))))
   \<and> (let x = np_divide (radii ! i) (NFW_Hilbert.r_s q); fx = f x in
        (fx = Fin 0 \<longrightarrow>
           NFW_Hilbert_surface_mass_density_from_radii f q radii ! i = Fin 0
           \<and> NFW_Hilbert_convergence_from_radii f q radii ! i = Fin 0)
      \<and> (fx \<noteq> Fin 0 \<longrightarrow>
           NFW_Hilbert_surface_mass_density_from_radii f q radii ! i
             = np_mul (np_mul (np_mul (Fin 2) (NFW_Hilbert.rho_s q)) (NFW_Hilbert.r_s q))
                 (np_divide fx (np_sub (np_pow_int x 2) (Fin 1)))
           \<and> NFW_Hilbert_convergence_from_radii f q radii ! i
             = np_divide (np_mul (np_mul (Fin 2) (NFW_Hilbert.kappa_s q)) fx)
                 (np_sub (np_pow_int x 2) (Fin 1))))"
  by (simp add: Let_def np_where_def
      Hernquist_surface_mass_density_from_radii_def Hernquist_surface_mass_density_def
      Hernquist_convergence_from_radii_def Hernquist_convergence_def
      Hernquist_deflection_angles_from_radii_def Hernquist_deflection_angles_def
      NFW_Hilbert_surface_mass_density_from_radii_def NFW_Hilbert_surface_mass_density_def
      NFW_Hilbert_convergence_from_radii_def NFW_Hilbert_convergence_def
      del: np_divide.simps np_mul.simps np_add.simps np_pow_int.simps)

theorem mask_forces_zero_witness:
  "\<exists>p q s. Hernquist_init test_cosmology (10 ^ 11) 5 1 (3 / 10) = Inr p
     \<and> NFW_Hilbert_init test_cosmology (10 ^ 13) 2 (1 / 2) = Inr q
     \<and> NFW_Hilbert.r_s q = Fin s
     \<and> f_func (np_divide PInf (Hernquist.r_s p)) = Fin 0
     \<and> f_func (np_divide PInf (NFW_Hilbert.r_s q)) = Fin 0
     \<and> f_func (np_divide (Fin 5) (Hernquist.r_s p)) \<noteq> Fin 0
     \<and> f_func (np_divide (Fin 5) (NFW_Hilbert.r_s q)) \<noteq> Fin 0
     \<and> Hernquist_surface_mass_density_from_radii f_func p [PInf, Fin 5] ! 0 = Fin 0
     \<and> Hernquist_convergence_from_radii f_func p [PInf, Fin 5] ! 0 = Fin 0
     \<and> Hernquist_deflection_angles_from_radii f_func p [PInf, Fin 5] ! 0 = Fin 0
     \<and> NFW_Hilbert_surface_mass_density_from_radii f_func q [PInf, Fin 5] ! 0 = Fin 0
     \<and> NFW_Hilbert_convergence_from_radii f_func q [PInf, Fin 5] ! 0 = Fin 0
     \<and> Hernquist_deflection_angles_from_radii f_func p [PInf, Fin 5] ! 1
         = np_mul (np_mul (np_mul (Fin 2) (Hernquist.kappa_s p)) (Hernquist.r_s p))
             (np_divide (np_mul (Fin 1.8153) (f_func (Fin 1.8153)))
                (np_sub (np_pow_int (Fin 1.8153) 2) (Fin 1)))
     \<and> NFW_Hilbert_convergence_from_radii f_func q [PInf, Fin 5] ! 1
         = np_divide (np_mul (np_mul (Fin 2) (NFW_Hilbert.kappa_s q)) (f_func (Fin (5 / s))))
             (np_sub (np_pow_int (Fin (5 / s)) 2) (Fin 1))"
proof -
  obtain p where p: "Hernquist_init test_cosmology (10 ^ 11) 5 1 (3 / 10) = Inr p"
    "Hernquist.r_s p = Fin (5 / 1.8153)"
    using test_Hernquist by blast
  obtain q where q: "NFW_Hilbert_init test_cosmology (10 ^ 13) 2 (1 / 2) = Inr q"
    "finite_pos (NFW_Hilbert.r_s q)"
    using test_NFW_Hilbert by blast
  obtain s where s: "NFW_Hilbert.r_s q = Fin s" "0 < s"
    using q(2) by (rule finite_posE)
  have xp: "np_divide PInf (Hernquist.r_s p) = PInf"
    "np_divide (Fin 5) (Hernquist.r_s p) = Fin 1.8153"
    by (simp_all add: p(2))
  have xq: "np_divide PInf (NFW_Hilbert.r_s q) = PInf"
    "np_divide (Fin 5) (NFW_Hilbert.r_s q) = Fin (5 / s)"
    using s(2) by (simp_all add: s(1))
  have z: "f_func PInf = Fin 0" by simp
  have nz: "f_func (Fin 1.8153) \<noteq> Fin 0" "f_func (Fin (5 / s)) \<noteq> Fin 0"
    using s(2) by (simp_all only: f_func_ne_zero zero_less_divide_iff zero_less_numeral
        zero_less_power simp_thms)
  have i: "0 < length [PInf, Fin 5]" "1 < length [PInf, Fin 5]" by simp_all
  note m = mask_forces_zero [of "[PInf, Fin 5]" p f_func q, rule_format]
  show ?thesis
    using m [OF i(1)] m [OF i(2)] p(1) q(1) s(1) xp xq z nz
    by (simp add: Let_def del: np_divide.simps np_mul.simps np_add.simps np_pow_int.simps f_func.simps)
qed


section \<open>The NFW deflection angle\<close>

lemma NFW_Hilbert_deflection_angles_finite:
  assumes "NFW_Hilbert.r_s p = Fin s" "0 < s" "NFW_Hilbert.kappa_s p = Fin k"
    and "0 < r" "f (Fin (r / s)) = Fin y"
  shows "NFW_Hilbert_deflection_angles f p (Fin r)
           = Fin (4 * k * s * (ln (r / s / 2) + 1 - y) / (r / s))"
  using assms by (simp add: NFW_Hilbert_deflection_angles_def Let_def)

lemma np_add_one_sub:
  "np_sub (np_add a (Fin 1)) v = np_add a (np_sub (Fin 1) v)"
  by (cases a; cases v) (simp_all add: np_sub_def)

text \<open>
  C4. For an NFW\_Hilbert profile and an array of radii, \<^verbatim>\<open>deflection_angles_from_radii(R)\<close>
  is, element by element with \<open>x = R / r_s\<close>,
  \<^verbatim>\<open>4 kappa_s r_s (ln(x/2) + 1 - f(x)) / x\<close>: as an expression of floats on every
  array, and as a real number on positive radii when \<^verbatim>\<open>kappa_s\<close> is finite, \<^verbatim>\<open>r_s\<close>
  positive and the helper finite there.
\<close>

theorem NFW_Hilbert_deflection_closed_form:
  "NFW_Hilbert_deflection_angles_from_radii f p radii
     = map (\<lambda>R. let x = np_divide R (NFW_Hilbert.r_s p) in
              np_mul (np_mul (np_mul (Fin 4) (NFW_Hilbert.kappa_s p)) (NFW_Hilbert.r_s p))
                (np_divide (np_sub (np_add (np_log (np_divide x (Fin 2))) (Fin 1)) (f x)) x))
         radii
   \<and> (NFW_Hilbert.r_s p = Fin s \<and> 0 < s \<and> NFW_Hilbert.kappa_s p = Fin k
        \<and> (\<forall>r\<in>set rs. 0 < r \<and> f (Fin (r / s)) = Fin (g (r / s)))
      \<longrightarrow> NFW_Hilbert_deflection_angles_from_radii f p (map Fin rs)
           = map (\<lambda>r. Fin (4 * k * s * (ln (r / s / 2) + 1 - g (r / s)) / (r / s))) rs)"
proof (intro conjI impI)
  show "NFW_Hilbert_deflection_angles_from_radii f p radii
     = map (\<lambda>R. let x = np_divide R (NFW_Hilbert.r_s p) in
              np_mul (np_mul (np_mul (Fin 4) (NFW_Hilbert.kappa_s p)) (NFW_Hilbert.r_s p))
                (np_divide (np_sub (np_add (np_log (np_divide x (Fin 2))) (Fin 1)) (f x)) x))
         radii"
    by (simp add: NFW_Hilbert_deflection_angles_from_radii_def
        NFW_Hilbert_deflection_angles_def Let_def np_add_one_sub
        del: np_divide.simps np_mul.simps np_add.simps np_log.simps)
next
  assume "NFW_Hilbert.r_s p = Fin s \<and> 0 < s \<and> NFW_Hilbert.kappa_s p = Fin k
        \<and> (\<forall>r\<in>set rs. 0 < r \<and> f (Fin (r / s)) = Fin (g (r / s)))"
  then show "NFW_Hilbert_deflection_angles_from_radii f p (map Fin rs)
           = map (\<lambda>r. Fin (4 * k * s * (ln (r / s / 2) + 1 - g (r / s)) / (r / s))) rs"
    by (simp add: NFW_Hilbert_deflection_angles_from_radii_def
        NFW_Hilbert_deflection_angles_finite)
qed

theorem NFW_Hilbert_deflection_closed_form_witness:
  "\<exists>p s k. NFW_Hilbert_init test_cosmology (10 ^ 13) 2 (1 / 2) = Inr p
     \<and> NFW_Hilbert.r_s p = Fin s \<and> 0 < s \<and> NFW_Hilbert.kappa_s p = Fin k
     \<and> f_func (Fin (s / s)) = Fin 1
     \<and> NFW_Hilbert_deflection_angles_from_radii f_func p (map Fin [s])
         = [Fin (4 * k * s * (ln (1 / 2) + 1 - 1) / 1)]"
proof -
  obtain p where p: "NFW_Hilbert_init test_cosmology (10 ^ 13) 2 (1 / 2) = Inr p"
    "finite_pos (NFW_Hilbert.r_s p)" "finite_pos (NFW_Hilbert.kappa_s p)"
    using test_NFW_Hilbert by blast
  obtain s where s: "NFW_Hilbert.r_s p = Fin s" "0 < s"
    using p(2) by (rule finite_posE)
  obtain k where k: "NFW_Hilbert.kappa_s p = Fin k" "0 < k"
    using p(3) by (rule finite_posE)
  have h: "\<forall>r\<in>set [s]. 0 < r \<and> f_func (Fin (r / s)) = Fin ((\<lambda>x. 1) (r / s))"
    using s(2) by simp
  have "NFW_Hilbert_deflection_angles_from_radii f_func p (map Fin [s])
          = map (\<lambda>r. Fin (4 * k * s * (ln (r / s / 2) + 1 - (\<lambda>x. 1) (r / s)) / (r / s))) [s]"
    using NFW_Hilbert_deflection_closed_form [of f_func p _ s k "[s]" "\<lambda>x. 1", THEN conjunct2]
      s k(1) h by blast
  then show ?thesis
    using p(1) s k(1) by simp
qed

text \<open>
  C10. \<^verbatim>\<open>NFW_Hilbert.deflection_angles_from_radii\<close> has no mask: on every array it returns
  the raw expression, also at an element where \<^verbatim>\<open>f(x) = 0\<close>, where the surface mass
  density and the convergence of NFW\_Hilbert, and the deflection of Hernquist, are 0.
\<close>

theorem NFW_Hilbert_deflection_is_unmasked:
  "NFW_Hilbert_deflection_angles_from_radii f q radii
     = map (\<lambda>R. let x = np_divide R (NFW_Hilbert.r_s q) in
              np_mul (np_mul (np_mul (Fin 4) (NFW_Hilbert.kappa_s q)) (NFW_Hilbert.r_s q))
                (np_divide (np_add (np_log (np_divide x (Fin 2))) (np_sub (Fin 1) (f x))) x))
         radii
   \<and> (\<forall>i<length radii.
        (let x = np_divide (radii ! i) (NFW_Hilbert.r_s q) in
           f x = Fin 0 \<longrightarrow>
             NFW_Hilbert_deflection_angles_from_radii f q radii ! i
               = np_mul (np_mul (np_mul (Fin 4) (NFW_Hilbert.kappa_s q)) (NFW_Hilbert.r_s q))
                   (np_divide (np_add (np_log (np_divide x (Fin 2))) (Fin 1)) x)
             \<and> NFW_Hilbert_surface_mass_density_from_radii f q radii ! i = Fin 0
             \<and> NFW_Hilbert_convergence_from_radii f q radii ! i = Fin 0)
      \<and> (f (np_divide (radii ! i) (Hernquist.r_s p)) = Fin 0 \<longrightarrow>
           Hernquist_deflection_angles_from_radii f p radii ! i = Fin 0))"
  by (simp add: Let_def np_where_def
      NFW_Hilbert_deflection_angles_from_radii_def NFW_Hilbert_deflection_angles_def
      NFW_Hilbert_surface_mass_density_from_radii_def NFW_Hilbert_surface_mass_density_def
      NFW_Hilbert_convergence_from_radii_def NFW_Hilbert_convergence_def
      Hernquist_deflection_angles_from_radii_def Hernquist_deflection_angles_def
      del: np_divide.simps np_mul.simps np_add.simps np_pow_int.simps np_log.simps)

theorem NFW_Hilbert_deflection_is_unmasked_witness:
  "\<exists>p q s k. Hernquist_init test_cosmology (10 ^ 11) 5 1 (3 / 10) = Inr p
     \<and> NFW_Hilbert_init test_cosmology (10 ^ 13) 2 (1 / 2) = Inr q
     \<and> NFW_Hilbert.r_s q = Fin s \<and> 0 < s \<and> NFW_Hilbert.kappa_s q = Fin k \<and> 0 < k
     \<and> NFW_Hilbert_deflection_angles_from_radii (\<lambda>x. Fin 0) q [Fin (2 * s)] ! 0
         = Fin (2 * k * s)
     \<and> NFW_Hilbert_surface_mass_density_from_radii (\<lambda>x. Fin 0) q [Fin (2 * s)] ! 0 = Fin 0
     \<and> NFW_Hilbert_convergence_from_radii (\<lambda>x. Fin 0) q [Fin (2 * s)] ! 0 = Fin 0
     \<and> Hernquist_deflection_angles_from_radii (\<lambda>x. Fin 0) p [Fin (2 * s)] ! 0 = Fin 0"
proof -
  obtain p where p: "Hernquist_init test_cosmology (10 ^ 11) 5 1 (3 / 10) = Inr p"
    using test_Hernquist by blast
  obtain q where q: "NFW_Hilbert_init test_cosmology (10 ^ 13) 2 (1 / 2) = Inr q"
    "finite_pos (NFW_Hilbert.r_s q)" "finite_pos (NFW_Hilbert.kappa_s q)"
    using test_NFW_Hilbert by blast
  obtain s where s: "NFW_Hilbert.r_s q = Fin s" "0 < s"
    using q(2) by (rule finite_posE)
  obtain k where k: "NFW_Hilbert.kappa_s q = Fin k" "0 < k"
    using q(3) by (rule finite_posE)
  have i: "0 < length [Fin (2 * s)]" by simp
  note u = NFW_Hilbert_deflection_is_unmasked [of "\<lambda>x. Fin 0" q "[Fin (2 * s)]" p,
      THEN conjunct2, rule_format, OF i]
  have "NFW_Hilbert_deflection_angles_from_radii (\<lambda>x. Fin 0) q [Fin (2 * s)] ! 0
          = Fin (2 * k * s)"
    using u s(2) by (simp add: Let_def s(1) k(1))
  then show ?thesis
    using u p q(1) s k by (simp add: Let_def)
qed

section \<open>The NFW density does not increase\<close>

lemma np_nonnegE:
  assumes "np_nonneg v"
  obtains "v = PInf" | a where "v = Fin a" "0 \<le> a"
  using assms by (cases v) simp_all

lemma rd_nonneg: "np_nonneg v \<Longrightarrow> np_nonneg (rd v)"
proof (erule np_nonnegE)
  show "v = PInf \<Longrightarrow> np_nonneg (rd v)" by simp
next
  fix a assume "v = Fin a" "0 \<le> a"
  then show "np_nonneg (rd v)"
    using round_double_nonneg [of a] by auto
qed

lemma rd_mono:
  assumes "np_nonneg a" "np_le a b"
  shows "np_le (rd a) (rd b)"
proof (cases a)
  case (Fin x)
  then have x: "0 \<le> x" using assms(1) by simp
  show ?thesis
  proof (cases b)
    case (Fin y)
    then show ?thesis
      using assms(2) x \<open>a = Fin x\<close> by (simp add: round_double_mono)
  next
    case PInf
    then show ?thesis
      using round_double_nonneg [OF x] \<open>a = Fin x\<close> by auto
  qed (use assms(2) \<open>a = Fin x\<close> in simp_all)
next
  case PInf
  then show ?thesis using assms(2) by (cases b) simp_all
qed (use assms(1) in simp_all)

lemma np_le_nonneg: "np_nonneg a \<Longrightarrow> np_le a b \<Longrightarrow> np_nonneg b"
  by (cases a; cases b) simp_all

text \<open>The four steps of the formula, each monotone on the non-negative floats.\<close>

lemma dbl_divide_radius:
  assumes "0 < s" "0 < r1" "r1 \<le> r2"
  shows "np_nonneg (dbl_divide (Fin r1) (Fin s))"
    and "np_le (dbl_divide (Fin r1) (Fin s)) (dbl_divide (Fin r2) (Fin s))"
proof -
  have q: "0 \<le> r1 / s" "r1 / s \<le> r2 / s"
    using assms by (simp_all add: divide_right_mono)
  show "np_nonneg (dbl_divide (Fin r1) (Fin s))"
    using assms(1) round_double_nonneg [OF q(1)] by (auto simp: dbl_divide_def)
  show "np_le (dbl_divide (Fin r1) (Fin s)) (dbl_divide (Fin r2) (Fin s))"
    using assms(1) round_double_mono [OF q] by (simp add: dbl_divide_def)
qed

lemma one_plus_ge_one:
  assumes "np_nonneg x"
  shows "np_le (Fin 1) (dbl_add (Fin 1) x)"
proof (rule np_nonnegE [OF assms])
  show "x = PInf \<Longrightarrow> np_le (Fin 1) (dbl_add (Fin 1) x)" by (simp add: dbl_add_def)
next
  fix a assume a: "x = Fin a" "0 \<le> a"
  have "np_le (round_double 1) (round_double (1 + a))"
    using a(2) by (intro round_double_mono) simp_all
  then show "np_le (Fin 1) (dbl_add (Fin 1) x)"
    by (simp add: dbl_add_def a(1))
qed

lemma one_plus_mono:
  assumes "np_nonneg x1" "np_le x1 x2"
  shows "np_le (dbl_add (Fin 1) x1) (dbl_add (Fin 1) x2)"
proof -
  have "np_nonneg (np_add (Fin 1) x1)"
    using assms(1) by (cases x1) simp_all
  moreover have "np_le (np_add (Fin 1) x1) (np_add (Fin 1) x2)"
    using assms by (cases x1; cases x2) simp_all
  ultimately show ?thesis
    unfolding dbl_add_def by (rule rd_mono)
qed

lemma square_ge_one:
  assumes "np_le (Fin 1) t"
  shows "np_le (Fin 1) (dbl_square t)"
proof (cases t)
  case (Fin b)
  then have "1 \<le> b" using assms by simp
  then have "1 \<le> b\<^sup>2" by simp
  then have "np_le (round_double 1) (round_double (b\<^sup>2))"
    by (intro round_double_mono) simp_all
  then show ?thesis by (simp add: dbl_square_def Fin)
qed (use assms in \<open>simp_all add: dbl_square_def\<close>)

lemma square_mono:
  assumes "np_le (Fin 1) t1" "np_le t1 t2"
  shows "np_le (dbl_square t1) (dbl_square t2)"
proof -
  have "np_nonneg (np_pow_int t1 2)"
    using assms(1) by (cases t1) simp_all
  moreover have "np_le (np_pow_int t1 2) (np_pow_int t2 2)"
  proof (cases t1)
    case (Fin b1)
    then have b1: "1 \<le> b1" using assms(1) by simp
    show ?thesis
    proof (cases t2)
      case (Fin b2)
      then have "b1 \<le> b2" using assms(2) \<open>t1 = Fin b1\<close> by simp
      then have "b1\<^sup>2 \<le> b2\<^sup>2" using b1 by (intro power_mono) simp_all
      then show ?thesis by (simp add: Fin \<open>t1 = Fin b1\<close>)
    qed (use assms(2) \<open>t1 = Fin b1\<close> in simp_all)
  qed (use assms in \<open>cases t2; simp_all\<close>)+
  ultimately show ?thesis
    unfolding dbl_square_def by (rule rd_mono)
qed

lemma times_mono:
  assumes "np_nonneg x1" "x1 \<noteq> Fin 0" "np_le x1 x2" "np_le (Fin 1) s1" "np_le s1 s2"
  shows "np_le (dbl_mul x1 s1) (dbl_mul x2 s2)" and "np_nonneg (dbl_mul x1 s1)"
proof -
  have n: "np_nonneg (np_mul x1 s1)"
    using assms(1,2,4) by (cases x1; cases s1) (auto simp: inf_of_def)
  have "np_le (np_mul x1 s1) (np_mul x2 s2)"
  proof (cases x1)
    case (Fin a1)
    then have a1: "0 < a1" using assms(1,2) by simp
    show ?thesis
    proof (cases x2)
      case (Fin a2)
      then have a2: "a1 \<le> a2" using assms(3) \<open>x1 = Fin a1\<close> by simp
      show ?thesis
      proof (cases s1)
        case (Fin c1)
        then have c1: "1 \<le> c1" using assms(4) by simp
        show ?thesis
        proof (cases s2)
          case (Fin c2)
          then have "c1 \<le> c2" using assms(5) \<open>s1 = Fin c1\<close> by simp
          then have "a1 * c1 \<le> a2 * c2"
            using a1 a2 c1 by (intro mult_mono) simp_all
          then show ?thesis
            by (simp add: Fin \<open>x1 = Fin a1\<close> \<open>x2 = Fin a2\<close> \<open>s1 = Fin c1\<close>)
        next
          case PInf
          then show ?thesis
            using a1 a2 by (simp add: \<open>x1 = Fin a1\<close> \<open>x2 = Fin a2\<close> \<open>s1 = Fin c1\<close>)
        qed (use assms(5) \<open>s1 = Fin c1\<close> in simp_all)
      next
        case PInf
        then have "s2 = PInf" using assms(5) by (cases s2) simp_all
        then show ?thesis
          using a1 a2 by (simp add: \<open>x1 = Fin a1\<close> \<open>x2 = Fin a2\<close> \<open>s1 = PInf\<close>)
      qed (use assms(4) in simp_all)
    next
      case PInf
      have "np_mul x2 s2 = PInf"
        using assms(4,5) by (cases s1; cases s2) (simp_all add: PInf)
      then show ?thesis using n by (cases "np_mul x1 s1") simp_all
    qed (use assms(3) \<open>x1 = Fin a1\<close> in simp_all)
  next
    case PInf
    then have "x2 = PInf" using assms(3) by (cases x2) simp_all
    then show ?thesis
      using assms(4,5) by (cases s1; cases s2) (simp_all add: PInf)
  qed (use assms(1) in simp_all)
  then show "np_le (dbl_mul x1 s1) (dbl_mul x2 s2)"
    unfolding dbl_mul_def using n by (intro rd_mono)
  show "np_nonneg (dbl_mul x1 s1)"
    unfolding dbl_mul_def using n by (rule rd_nonneg)
qed

lemma quotient_antimono:
  assumes "0 < rho" "np_nonneg d1" "np_le d1 d2"
  shows "np_le (dbl_divide (Fin rho) d2) (dbl_divide (Fin rho) d1)"
    and "np_nonneg (dbl_divide (Fin rho) d1)"
proof -
  have n2: "np_nonneg (np_divide (Fin rho) d2)"
    using assms np_le_nonneg [OF assms(2,3)] by (cases d2) (simp_all add: inf_of_def)
  have "np_le (np_divide (Fin rho) d2) (np_divide (Fin rho) d1)"
  proof (cases d1)
    case (Fin c1)
    then have c1: "0 \<le> c1" using assms(2) by simp
    show ?thesis
    proof (cases d2)
      case (Fin c2)
      then have c2: "c1 \<le> c2" using assms(3) \<open>d1 = Fin c1\<close> by simp
      show ?thesis
      proof (cases "c1 = 0")
        case True
        then show ?thesis
          using assms(1) n2 by (cases "np_divide (Fin rho) d2") (simp_all add: \<open>d1 = Fin c1\<close>)
      next
        case False
        then have "0 < c1" using c1 by simp
        then have "rho / c2 \<le> rho / c1"
          using c2 assms(1) by (intro divide_left_mono) simp_all
        then show ?thesis
          using \<open>0 < c1\<close> c2 by (simp add: Fin \<open>d1 = Fin c1\<close>)
      qed
    next
      case PInf
      then show ?thesis
        using assms(1) c1 by (simp add: \<open>d1 = Fin c1\<close> inf_of_def)
    qed (use assms(3) \<open>d1 = Fin c1\<close> in simp_all)
  next
    case PInf
    then have "d2 = PInf" using assms(3) by (cases d2) simp_all
    then show ?thesis by (simp add: PInf)
  qed (use assms(2) in simp_all)
  then show "np_le (dbl_divide (Fin rho) d2) (dbl_divide (Fin rho) d1)"
    unfolding dbl_divide_def using n2 by (intro rd_mono)
  have "np_nonneg (np_divide (Fin rho) d1)"
    using assms(1,2) by (cases d1) (simp_all add: inf_of_def)
  then show "np_nonneg (dbl_divide (Fin rho) d1)"
    unfolding dbl_divide_def by (rule rd_nonneg)
qed

lemma np_nonneg_ge_zero: "np_nonneg v \<Longrightarrow> np_le (Fin 0) v"
  by (cases v) simp_all

lemma np_le_refl: "np_nonneg v \<Longrightarrow> np_le v v"
  by (cases v) simp_all

lemma denominator_at_zero:
  "dbl_mul (Fin 0) (dbl_square (dbl_add (Fin 1) (Fin 0))) = Fin 0"
  by (simp add: dbl_mul_def dbl_square_def dbl_add_def)

lemma denominator_nonneg:
  assumes "np_nonneg x"
  shows "np_nonneg (dbl_mul x (dbl_square (dbl_add (Fin 1) x)))"
proof (cases "x = Fin 0")
  case True
  then show ?thesis by (simp add: denominator_at_zero)
next
  case False
  have s: "np_le (Fin 1) (dbl_square (dbl_add (Fin 1) x))"
    by (intro square_ge_one one_plus_ge_one assms)
  have "np_nonneg (dbl_square (dbl_add (Fin 1) x))"
    using s by (cases "dbl_square (dbl_add (Fin 1) x)") simp_all
  then have "np_le (dbl_square (dbl_add (Fin 1) x)) (dbl_square (dbl_add (Fin 1) x))"
    by (rule np_le_refl)
  then show ?thesis
    by (rule times_mono(2) [OF assms False np_le_refl [OF assms] s])
qed

lemma denominator_mono:
  assumes "np_nonneg x1" "np_le x1 x2"
  shows "np_le (dbl_mul x1 (dbl_square (dbl_add (Fin 1) x1)))
           (dbl_mul x2 (dbl_square (dbl_add (Fin 1) x2)))"
proof (cases "x1 = Fin 0")
  case True
  have "np_nonneg x2" by (rule np_le_nonneg [OF assms])
  then have "np_nonneg (dbl_mul x2 (dbl_square (dbl_add (Fin 1) x2)))"
    by (rule denominator_nonneg)
  then show ?thesis
    by (simp add: True denominator_at_zero np_nonneg_ge_zero)
next
  case False
  have s1: "np_le (Fin 1) (dbl_square (dbl_add (Fin 1) x1))"
    by (intro square_ge_one one_plus_ge_one assms)
  have s12: "np_le (dbl_square (dbl_add (Fin 1) x1)) (dbl_square (dbl_add (Fin 1) x2))"
    by (intro square_mono one_plus_ge_one one_plus_mono assms)
  show ?thesis
    by (rule times_mono(1) [OF assms(1) False assms(2) s1 s12])
qed

lemma NFW_Hilbert_density_double_mono:
  assumes "NFW_Hilbert.rho_s p = Fin rho" "0 < rho" "NFW_Hilbert.r_s p = Fin s" "0 < s"
    and "0 < r1" "r1 \<le> r2"
  shows "np_le (NFW_Hilbert_density_double p (Fin r2)) (NFW_Hilbert_density_double p (Fin r1))"
    and "np_nonneg (NFW_Hilbert_density_double p (Fin r1))"
proof -
  let ?x1 = "dbl_divide (Fin r1) (Fin s)"
  let ?x2 = "dbl_divide (Fin r2) (Fin s)"
  let ?d1 = "dbl_mul ?x1 (dbl_square (dbl_add (Fin 1) ?x1))"
  let ?d2 = "dbl_mul ?x2 (dbl_square (dbl_add (Fin 1) ?x2))"
  note x = dbl_divide_radius [OF assms(4,5,6)]
  have d1: "np_nonneg ?d1" by (rule denominator_nonneg [OF x(1)])
  have d12: "np_le ?d1 ?d2" by (rule denominator_mono [OF x])
  show "np_le (NFW_Hilbert_density_double p (Fin r2)) (NFW_Hilbert_density_double p (Fin r1))"
    using quotient_antimono(1) [OF assms(2) d1 d12]
    by (simp add: NFW_Hilbert_density_double_def Let_def assms(1,3))
  show "np_nonneg (NFW_Hilbert_density_double p (Fin r1))"
    using quotient_antimono(2) [OF assms(2) d1 d12]
    by (simp add: NFW_Hilbert_density_double_def Let_def assms(1,3))
qed

text \<open>Beyond \<open>2 ^ 688\<close> scale radii the square overflows and the density is zero.\<close>

lemma round_double_two_power_688: "round_double (2 ^ 688) = Fin (2 ^ 688)"
  by (rule round_double_exact [where k = 688 and m = "2 ^ 52"]) simp_all

lemma NFW_Hilbert_density_double_overflow:
  assumes "NFW_Hilbert.rho_s p = Fin rho" "NFW_Hilbert.r_s p = Fin s" "0 < s"
    and "2 ^ 688 * s \<le> r"
  shows "NFW_Hilbert_density_double p (Fin r) = Fin 0"
proof -
  let ?x = "dbl_divide (Fin r) (Fin s)"
  have q: "2 ^ 688 \<le> r / s" using assms(3,4) by (simp add: pos_le_divide_eq)
  have dx: "?x = round_double (r / s)"
    using assms(3) by (simp add: dbl_divide_def)
  have "np_le (round_double (2 ^ 688)) (round_double (r / s))"
    using q by (intro round_double_mono) simp_all
  then have x: "np_le (Fin (2 ^ 688)) ?x"
    by (simp only: dx round_double_two_power_688)
  have t: "np_le (Fin (2 ^ 688)) (dbl_add (Fin 1) ?x)"
  proof (cases ?x)
    case (Fin a)
    then have a: "2 ^ 688 \<le> a" using x by simp
    have "np_le (round_double (2 ^ 688)) (round_double (1 + a))"
      using a by (intro round_double_mono) simp_all
    then have "np_le (Fin (2 ^ 688)) (round_double (1 + a))"
      by (simp only: round_double_two_power_688)
    then show ?thesis
      by (simp add: dbl_add_def Fin)
  qed (use x in \<open>simp_all add: dbl_add_def\<close>)
  have sq: "dbl_square (dbl_add (Fin 1) ?x) = PInf"
  proof (cases "dbl_add (Fin 1) ?x")
    case (Fin b)
    then have b: "2 ^ 688 \<le> b" using t by simp
    have "(2::real) ^ 1024 \<le> (2 ^ 688)\<^sup>2" by simp
    also have "\<dots> \<le> b\<^sup>2" using b by (intro power_mono) simp_all
    finally have "round_double (b\<^sup>2) = PInf" by (rule round_double_overflow)
    then show ?thesis by (simp add: dbl_square_def Fin)
  qed (use t in \<open>simp_all add: dbl_square_def\<close>)
  have m: "dbl_mul ?x PInf = PInf"
  proof (cases ?x)
    case (Fin a)
    then have "2 ^ 688 \<le> a" using x by simp
    moreover have "(0::real) < 2 ^ 688" by simp
    ultimately have "0 < a" by linarith
    then show ?thesis by (simp add: dbl_mul_def Fin)
  qed (use x in \<open>simp_all add: dbl_mul_def\<close>)
  have "NFW_Hilbert_density_double p (Fin r)
          = dbl_divide (Fin rho) (dbl_mul ?x (dbl_square (dbl_add (Fin 1) ?x)))"
    by (simp only: NFW_Hilbert_density_double_def Let_def assms(1,2))
  also have "\<dots> = dbl_divide (Fin rho) PInf"
    by (simp only: sq m)
  also have "\<dots> = Fin 0"
    by (simp add: dbl_divide_def)
  finally show ?thesis .
qed

lemma test_NFW_Hilbert_r_s:
  "\<exists>p s. NFW_Hilbert_init test_cosmology (10 ^ 13) 2 (1 / 2) = Inr p
     \<and> finite_pos (NFW_Hilbert.rho_s p) \<and> NFW_Hilbert.r_s p = Fin s \<and> 0 < s \<and> s \<le> 2 ^ 12"
proof -
  obtain p where p: "NFW_Hilbert_init test_cosmology (10 ^ 13) 2 (1 / 2) = Inr p"
    "finite_pos (NFW_Hilbert.rho_s p)" "finite_pos (NFW_Hilbert.r_s p)"
    using test_NFW_Hilbert by blast
  define b :: real where "b = 10 ^ 13 / (1.333 * pi * 200)"
  have "2 \<le> pi" by (rule pi_ge_two)
  then have "(10::real) ^ 13 \<le> 2 ^ 36 * (1.333 * pi * 200)" by simp
  then have b: "0 < b" "b \<le> 2 ^ 36"
    by (simp_all add: b_def pos_divide_le_eq)
  have rs: "NFW_Hilbert.r_s p = Fin (b powr (1 / 3))"
    using p(1) b(1)
    by (auto simp: NFW_Hilbert_init_def LensProfile_init_def Let_def test_cosmology_def
        b_def split: if_splits)
  have "b powr (1 / 3) \<le> (2 ^ 36) powr (1 / 3)"
    using b by (intro powr_mono2) simp_all
  also have "(2 ^ 36 :: real) powr (1 / 3) = 2 ^ 12"
  proof -
    have "(2 ^ 36 :: real) = (2 ^ 12) powr 3" by simp
    then have "(2 ^ 36 :: real) powr (1 / 3) = ((2 ^ 12) powr 3) powr (1 / 3)" by simp
    also have "\<dots> = (2 ^ 12) powr (3 * (1 / 3))" by (rule powr_powr)
    finally show ?thesis by simp
  qed
  finally have "b powr (1 / 3) \<le> 2 ^ 12" .
  moreover have "0 < b powr (1 / 3)" using b(1) by simp
  ultimately show ?thesis using p(1,2) rs by blast
qed

text \<open>
  The instance of the specification's scenario at the radii \<^verbatim>\<open>2**700\<close> and
  \<^verbatim>\<open>2**701\<close>: \<^verbatim>\<open>(1 + x)**2\<close> overflows to infinity at both, the density is
  \<^verbatim>\<open>rho_s / inf = 0.0\<close> at both, and the second is not less than the first.
\<close>

theorem NFW_Hilbert_density_strictly_decreasing_counterexample:
  "\<exists>p. NFW_Hilbert_init test_cosmology (10 ^ 13) 2 (1 / 2) = Inr p
     \<and> finite_pos (NFW_Hilbert.rho_s p) \<and> finite_pos (NFW_Hilbert.r_s p)
     \<and> NFW_Hilbert_density_from_radii_double p [Fin (2 ^ 700), Fin (2 ^ 701)]
         = [Fin 0, Fin 0]
     \<and> \<not> sorted_wrt (\<lambda>a b. np_less b a)
           (NFW_Hilbert_density_from_radii_double p [Fin (2 ^ 700), Fin (2 ^ 701)])"
proof -
  obtain p s where p: "NFW_Hilbert_init test_cosmology (10 ^ 13) 2 (1 / 2) = Inr p"
    "finite_pos (NFW_Hilbert.rho_s p)" "NFW_Hilbert.r_s p = Fin s" "0 < s" "s \<le> 2 ^ 12"
    using test_NFW_Hilbert_r_s by blast
  obtain rho where rho: "NFW_Hilbert.rho_s p = Fin rho"
    using p(2) by (auto elim: finite_posE)
  have "(2::real) ^ 688 * s \<le> 2 ^ 688 * 2 ^ 12" using p(5) by simp
  then have a: "(2::real) ^ 688 * s \<le> 2 ^ 700" "(2::real) ^ 688 * s \<le> 2 ^ 701" by simp_all
  note z = NFW_Hilbert_density_double_overflow [OF rho p(3,4)]
  show ?thesis
    using p(1,2,4) z [OF a(1)] z [OF a(2)]
    by (auto simp: NFW_Hilbert_density_from_radii_double_def p(3))
qed

text \<open>
  C7, as the code has it. For an NFW\_Hilbert profile with \<^verbatim>\<open>rho_s > 0\<close> and
  \<^verbatim>\<open>r_s > 0\<close>, the density in double precision over a strictly increasing array of
  positive radii has one element for each radius, none negative or NaN, and does not
  increase: each element is greater than or equal to every later one. Neighbouring
  radii can give the same double.
\<close>

theorem NFW_Hilbert_density_not_increasing:
  assumes "finite_pos (NFW_Hilbert.rho_s p)" and "finite_pos (NFW_Hilbert.r_s p)"
    and "sorted_wrt (<) rs" and "\<forall>r\<in>set rs. 0 < r"
  shows "length (NFW_Hilbert_density_from_radii_double p (map Fin rs)) = length rs
       \<and> (\<forall>i<length rs.
            NFW_Hilbert_density_from_radii_double p (map Fin rs) ! i
              = NFW_Hilbert_density_double p (Fin (rs ! i))
            \<and> np_nonneg (NFW_Hilbert_density_from_radii_double p (map Fin rs) ! i))
       \<and> (\<forall>i j. i < j \<and> j < length rs \<longrightarrow>
            np_le (NFW_Hilbert_density_from_radii_double p (map Fin rs) ! j)
              (NFW_Hilbert_density_from_radii_double p (map Fin rs) ! i))"
proof -
  obtain rho where rho: "NFW_Hilbert.rho_s p = Fin rho" "0 < rho"
    using assms(1) by (rule finite_posE)
  obtain s where s: "NFW_Hilbert.r_s p = Fin s" "0 < s"
    using assms(2) by (rule finite_posE)
  note m = NFW_Hilbert_density_double_mono [OF rho s]
  have pos: "0 < rs ! i" if "i < length rs" for i
    using assms(4) that by simp
  have n: "np_nonneg (NFW_Hilbert_density_double p (Fin (rs ! i)))" if "i < length rs" for i
    by (rule m(2) [OF pos [OF that] order_refl])
  have d: "np_le (NFW_Hilbert_density_double p (Fin (rs ! j)))
             (NFW_Hilbert_density_double p (Fin (rs ! i)))"
    if "i < j" "j < length rs" for i j
  proof -
    have "rs ! i < rs ! j"
      using assms(3) that by (simp add: sorted_wrt_iff_nth_less)
    then show ?thesis
      using that by (intro m(1) pos) simp_all
  qed
  show ?thesis
    using n d by (simp add: NFW_Hilbert_density_from_radii_double_def)
qed

theorem NFW_Hilbert_density_not_increasing_witness:
  "\<exists>p. NFW_Hilbert_init test_cosmology (10 ^ 13) 2 (1 / 2) = Inr p
     \<and> finite_pos (NFW_Hilbert.rho_s p) \<and> finite_pos (NFW_Hilbert.r_s p)
     \<and> sorted_wrt (<) [0.1, 1, 5, 10, 100 :: real]
     \<and> length (NFW_Hilbert_density_from_radii_double p (map Fin [0.1, 1, 5, 10, 100])) = 5
     \<and> np_le (NFW_Hilbert_density_from_radii_double p (map Fin [0.1, 1, 5, 10, 100]) ! 4)
         (NFW_Hilbert_density_from_radii_double p (map Fin [0.1, 1, 5, 10, 100]) ! 0)"
proof -
  obtain p where p: "NFW_Hilbert_init test_cosmology (10 ^ 13) 2 (1 / 2) = Inr p"
    "finite_pos (NFW_Hilbert.rho_s p)" "finite_pos (NFW_Hilbert.r_s p)"
    using test_NFW_Hilbert by blast
  have g: "sorted_wrt (<) [0.1, 1, 5, 10, 100 :: real]"
    "\<forall>r\<in>set [0.1, 1, 5, 10, 100 :: real]. 0 < r"
    by simp_all
  note t = NFW_Hilbert_density_not_increasing [OF p(2) p(3) g]
  have l: "length [0.1, 1, 5, 10, 100 :: real] = 5" by simp
  have "np_le (NFW_Hilbert_density_from_radii_double p (map Fin [0.1, 1, 5, 10, 100]) ! 4)
         (NFW_Hilbert_density_from_radii_double p (map Fin [0.1, 1, 5, 10, 100]) ! 0)"
    using t [THEN conjunct2, THEN conjunct2, rule_format, of 0 4] by (simp only: l) simp
  moreover have "length (NFW_Hilbert_density_from_radii_double p (map Fin [0.1, 1, 5, 10, 100])) = 5"
    using t [THEN conjunct1] by (simp only: l)
  ultimately show ?thesis
    using p g(1) by blast
qed

section \<open>The evaluators leave the instance as it is\<close>

lemma run_state_getattr [simp]: "run_state (getattr a) self = (a self, self)"
  by (simp add: getattr_def)

lemma map2_map_map: "map2 g (map f xs) (map h xs) = map (\<lambda>x. g (f x) (h x)) xs"
  by (induction xs) simp_all

text \<open>
  With a helper that is a function of the array and does not touch the instance, a method
  returns the array of the evaluator of the same name and the instance it was given.
\<close>

lemma SphericalPowerLaw_method_run:
  "run_state (SphericalPowerLaw_method ev radii) self
     = (case ev of
          density_from_radii \<Rightarrow> SphericalPowerLaw_density_from_radii self radii
        | surface_mass_density_from_radii \<Rightarrow>
            SphericalPowerLaw_surface_mass_density_from_radii self radii
        | convergence_from_radii \<Rightarrow> SphericalPowerLaw_convergence_from_radii self radii
        | deflection_angles_from_radii \<Rightarrow>
            SphericalPowerLaw_deflection_angles_from_radii self radii,
        self)"
  by (cases ev)
    (simp_all add: SphericalPowerLaw_method_def
      SphericalPowerLaw_density_from_radii_method_def
      SphericalPowerLaw_surface_mass_density_from_radii_method_def
      SphericalPowerLaw_convergence_from_radii_method_def
      SphericalPowerLaw_deflection_angles_from_radii_method_def
      SphericalPowerLaw_density_from_radii_def SphericalPowerLaw_density_def
      SphericalPowerLaw_surface_mass_density_from_radii_def
      SphericalPowerLaw_surface_mass_density_def
      SphericalPowerLaw_convergence_from_radii_def SphericalPowerLaw_convergence_def
      SphericalPowerLaw_deflection_angles_from_radii_def
      SphericalPowerLaw_deflection_angles_def
      del: np_divide.simps np_mul.simps np_power.simps)

lemma Hernquist_method_run:
  "run_state (Hernquist_method (\<lambda>x. State_Monad.return (map f x)) ev radii) self
     = (case ev of
          density_from_radii \<Rightarrow> Hernquist_density_from_radii self radii
        | surface_mass_density_from_radii \<Rightarrow>
            Hernquist_surface_mass_density_from_radii f self radii
        | convergence_from_radii \<Rightarrow> Hernquist_convergence_from_radii f self radii
        | deflection_angles_from_radii \<Rightarrow>
            Hernquist_deflection_angles_from_radii f self radii,
        self)"
  by (cases ev)
    (simp_all add: Hernquist_method_def Let_def o_def map2_map_map
      Hernquist_density_from_radii_method_def
      Hernquist_surface_mass_density_from_radii_method_def
      Hernquist_convergence_from_radii_method_def
      Hernquist_deflection_angles_from_radii_method_def
      Hernquist_density_from_radii_def Hernquist_density_def
      Hernquist_surface_mass_density_from_radii_def Hernquist_surface_mass_density_def
      Hernquist_convergence_from_radii_def Hernquist_convergence_def
      Hernquist_deflection_angles_from_radii_def Hernquist_deflection_angles_def
      del: np_divide.simps np_mul.simps np_add.simps np_pow_int.simps)

lemma NFW_Hilbert_method_run:
  "run_state (NFW_Hilbert_method (\<lambda>x. State_Monad.return (map f x)) ev radii) self
     = (case ev of
          density_from_radii \<Rightarrow> NFW_Hilbert_density_from_radii self radii
        | surface_mass_density_from_radii \<Rightarrow>
            NFW_Hilbert_surface_mass_density_from_radii f self radii
        | convergence_from_radii \<Rightarrow> NFW_Hilbert_convergence_from_radii f self radii
        | deflection_angles_from_radii \<Rightarrow>
            NFW_Hilbert_deflection_angles_from_radii f self radii,
        self)"
  by (cases ev)
    (simp_all add: NFW_Hilbert_method_def Let_def o_def map2_map_map
      NFW_Hilbert_density_from_radii_method_def
      NFW_Hilbert_surface_mass_density_from_radii_method_def
      NFW_Hilbert_convergence_from_radii_method_def
      NFW_Hilbert_deflection_angles_from_radii_method_def
      NFW_Hilbert_density_from_radii_def NFW_Hilbert_density_def
      NFW_Hilbert_surface_mass_density_from_radii_def NFW_Hilbert_surface_mass_density_def
      NFW_Hilbert_convergence_from_radii_def NFW_Hilbert_convergence_def
      NFW_Hilbert_deflection_angles_from_radii_def NFW_Hilbert_deflection_angles_def
      del: np_divide.simps np_mul.simps np_add.simps np_pow_int.simps np_log.simps)

text \<open>The frame of a method, given the frame of the helper it calls.\<close>

lemma SphericalPowerLaw_method_frame:
  "snd (run_state (SphericalPowerLaw_method ev radii) self) = self"
  by (simp add: SphericalPowerLaw_method_run)

lemma Hernquist_method_frame:
  assumes "\<forall>x self. snd (run_state (f_func' x) self) = self"
  shows "snd (run_state (Hernquist_method f_func' ev radii) self) = self"
  using assms
  by (cases ev)
    (simp_all add: Hernquist_method_def Let_def case_prod_beta
      Hernquist_density_from_radii_method_def
      Hernquist_surface_mass_density_from_radii_method_def
      Hernquist_convergence_from_radii_method_def
      Hernquist_deflection_angles_from_radii_method_def)

lemma NFW_Hilbert_method_frame:
  assumes "\<forall>x self. snd (run_state (f_func' x) self) = self"
  shows "snd (run_state (NFW_Hilbert_method f_func' ev radii) self) = self"
  using assms
  by (cases ev)
    (simp_all add: NFW_Hilbert_method_def Let_def case_prod_beta
      NFW_Hilbert_density_from_radii_method_def
      NFW_Hilbert_surface_mass_density_from_radii_method_def
      NFW_Hilbert_convergence_from_radii_method_def
      NFW_Hilbert_deflection_angles_from_radii_method_def)

lemma list_all2_same_or_NaN: "list_all2 (\<lambda>a b. a = NaN \<or> np_equal a b) xs xs"
  by (simp add: list_all2_same np_equal_def)

text \<open>
  C9. A call of any of the four evaluators on an instance of any of the three types
  leaves the instance with every attribute as it was, provided the inherited helper
  \<^verbatim>\<open>f_func\<close> that it calls leaves it so; and a second call with the same radii returns
  the same array, equal to the first as floats at every element that is not NaN.
\<close>

theorem evaluators_do_not_mutate:
  assumes "\<forall>x self. snd (run_state (f_func1 x) self) = self"
    and "\<forall>x self. snd (run_state (f_func2 x) self) = self"
  shows "snd (run_state (SphericalPowerLaw_method ev radii) p1) = p1
   \<and> snd (run_state (Hernquist_method f_func1 ev radii) p2) = p2
   \<and> snd (run_state (NFW_Hilbert_method f_func2 ev radii) p3) = p3
   \<and> list_all2 (\<lambda>a b. a = NaN \<or> np_equal a b)
       (fst (run_state (SphericalPowerLaw_method ev radii) p1))
       (fst (run_state (SphericalPowerLaw_method ev radii)
          (snd (run_state (SphericalPowerLaw_method ev radii) p1))))
   \<and> list_all2 (\<lambda>a b. a = NaN \<or> np_equal a b)
       (fst (run_state (Hernquist_method f_func1 ev radii) p2))
       (fst (run_state (Hernquist_method f_func1 ev radii)
          (snd (run_state (Hernquist_method f_func1 ev radii) p2))))
   \<and> list_all2 (\<lambda>a b. a = NaN \<or> np_equal a b)
       (fst (run_state (NFW_Hilbert_method f_func2 ev radii) p3))
       (fst (run_state (NFW_Hilbert_method f_func2 ev radii)
          (snd (run_state (NFW_Hilbert_method f_func2 ev radii) p3))))
   \<and> fst (run_state (SphericalPowerLaw_method ev radii)
          (snd (run_state (SphericalPowerLaw_method ev radii) p1)))
       = fst (run_state (SphericalPowerLaw_method ev radii) p1)
   \<and> fst (run_state (Hernquist_method f_func1 ev radii)
          (snd (run_state (Hernquist_method f_func1 ev radii) p2)))
       = fst (run_state (Hernquist_method f_func1 ev radii) p2)
   \<and> fst (run_state (NFW_Hilbert_method f_func2 ev radii)
          (snd (run_state (NFW_Hilbert_method f_func2 ev radii) p3)))
       = fst (run_state (NFW_Hilbert_method f_func2 ev radii) p3)"
  by (simp only: SphericalPowerLaw_method_frame Hernquist_method_frame [OF assms(1)]
      NFW_Hilbert_method_frame [OF assms(2)] list_all2_same_or_NaN simp_thms)

theorem evaluators_do_not_mutate_witness:
  "\<exists>p1 p2 p3.
     SphericalPowerLaw_init test_cosmology 1 2 1 (3 / 10) = Inr p1
     \<and> Hernquist_init test_cosmology (10 ^ 11) 5 1 (3 / 10) = Inr p2
     \<and> NFW_Hilbert_init test_cosmology (10 ^ 13) 2 (1 / 2) = Inr p3
     \<and> snd (run_state (SphericalPowerLaw_method convergence_from_radii test_grid) p1) = p1
     \<and> snd (run_state
          (Hernquist_method (\<lambda>x. State_Monad.return (map f_func x))
             convergence_from_radii test_grid) p2) = p2
     \<and> snd (run_state
          (NFW_Hilbert_method (\<lambda>x. State_Monad.return (map f_func x))
             convergence_from_radii test_grid) p3) = p3
     \<and> fst (run_state
          (Hernquist_method (\<lambda>x. State_Monad.return (map f_func x))
             convergence_from_radii test_grid) p2)
         = Hernquist_convergence_from_radii f_func p2 test_grid"
proof -
  obtain p1 where p1: "SphericalPowerLaw_init test_cosmology 1 2 1 (3 / 10) = Inr p1"
    using test_SphericalPowerLaw by blast
  obtain p2 where p2: "Hernquist_init test_cosmology (10 ^ 11) 5 1 (3 / 10) = Inr p2"
    using test_Hernquist by blast
  obtain p3 where p3: "NFW_Hilbert_init test_cosmology (10 ^ 13) 2 (1 / 2) = Inr p3"
    using test_NFW_Hilbert by blast
  have h: "\<forall>x self. snd (run_state (State_Monad.return (map f_func x)) (self :: Hernquist)) = self"
    "\<forall>x self. snd (run_state (State_Monad.return (map f_func x)) (self :: NFW_Hilbert)) = self"
    by simp_all
  note t = evaluators_do_not_mutate
    [of "\<lambda>x. State_Monad.return (map f_func x)" "\<lambda>x. State_Monad.return (map f_func x)"
      convergence_from_radii test_grid p1 p2 p3, OF h]
  have "fst (run_state
          (Hernquist_method (\<lambda>x. State_Monad.return (map f_func x))
             convergence_from_radii test_grid) p2)
         = Hernquist_convergence_from_radii f_func p2 test_grid"
    by (simp add: Hernquist_method_run)
  then show ?thesis
    using t p1 p2 p3 by blast
qed


end
